theory Spec2Isabelle
  imports Complex_Main "HOL-Library.Word"
begin

unbundle bit_operations_syntax

section \<open>TD_SHT31: I2C driver of the SHT31 temperature and humidity sensor\<close>

text \<open>
  A shallow embedding of \<^verbatim>\<open>src/TD_SHT31.h\<close> and \<^verbatim>\<open>src/TD_SHT31.cpp\<close>.
  Member functions take the object and return it updated; the \<^verbatim>\<open>TwoWire\<close> bus and
  Arduino's \<^verbatim>\<open>delay\<close> are outside the repository and are modelled as a test double
  that answers every call as a function of the call history and logs each call.
\<close>

type_synonym uint8_t = "8 word"
type_synonym uint16_t = "16 word"

subsection \<open>Constants of the header\<close>

definition CMD_SS_CSD_HIGH :: uint16_t where "CMD_SS_CSD_HIGH = 0x2400"
definition CMD_SS_CSD_MEDIUM :: uint16_t where "CMD_SS_CSD_MEDIUM = 0x240B"
definition CMD_SS_CSD_LOW :: uint16_t where "CMD_SS_CSD_LOW = 0x2416"
definition CMD_SOFT_RESET :: uint16_t where "CMD_SOFT_RESET = 0x30A2"
definition CMD_GCALL_RESET :: uint16_t where "CMD_GCALL_RESET = 0x0006"
definition CMD_READ_STATUS :: uint16_t where "CMD_READ_STATUS = 0xF32D"
definition CMD_CLEAR_STATUS :: uint16_t where "CMD_CLEAR_STATUS = 0x3041"

definition ENABLE_CRC :: bool where "ENABLE_CRC = True"
definition DISABLE_CRC :: bool where "DISABLE_CRC = False"
definition CELSIUS :: bool where "CELSIUS = True"
definition FARENHEIT :: bool where "FARENHEIT = False"

text \<open>
  The error masks are \<^verbatim>\<open>int\<close> literals and \<^verbatim>\<open>_error_code\<close> is an \<^verbatim>\<open>int\<close>. Every
  value that the driver can store lies in \<open>0 .. 0x1FF\<close>, so the width of \<^verbatim>\<open>int\<close> on
  the target (16 or 32 bits) never matters and the masks are modelled as \<^typ>\<open>int\<close>.
\<close>

definition NO_ERROR :: int where "NO_ERROR = 0"
definition ERROR_TRANSMISSION_LEN :: int where "ERROR_TRANSMISSION_LEN = 1"
definition ERROR_END_TRANSMISSION :: int where "ERROR_END_TRANSMISSION = 2"
definition ERROR_REQUEST_LEN :: int where "ERROR_REQUEST_LEN = 4"
definition ERROR_WRITE_LEN :: int where "ERROR_WRITE_LEN = 8"
definition ERROR_WRONG_SENSOR_ID :: int where "ERROR_WRONG_SENSOR_ID = 16"
definition ERROR_FM_TIMEOUT :: int where "ERROR_FM_TIMEOUT = 32"
definition ERROR_NOT_CONNECTED :: int where "ERROR_NOT_CONNECTED = 64"
definition ERROR_CRC_CHECK :: int where "ERROR_CRC_CHECK = 128"
definition ERROR_WRONG_COMMAND :: int where "ERROR_WRONG_COMMAND = 257"

subsection \<open>The checksum\<close>

text \<open>
  \<^verbatim>\<open>crc8(data, len)\<close> reads the span \<open>data[0 .. len)\<close>; the model takes that span as a
  list (\<^verbatim>\<open>len\<close> is a \<^verbatim>\<open>uint8_t\<close>, so a span of the source has at most 255 bytes).
  \<open>crc8_bits\<close> is the inner loop \<^verbatim>\<open>for (uint8_t i = 8; i; --i)\<close> with its counter,
  \<open>crc8_loop\<close> the outer loop, which consumes one byte (\<^verbatim>\<open>*data++\<close>) per round.
\<close>

definition POLY :: uint8_t where "POLY = 0x31"

fun crc8_bits :: "nat \<Rightarrow> uint8_t \<Rightarrow> uint8_t" where
  "crc8_bits 0 crc = crc"
| "crc8_bits (Suc i) crc =
     crc8_bits i (if crc AND 0x80 \<noteq> 0 then push_bit 1 crc XOR POLY else push_bit 1 crc)"

fun crc8_loop :: "uint8_t list \<Rightarrow> uint8_t \<Rightarrow> uint8_t" where
  "crc8_loop [] crc = crc"
| "crc8_loop (d # data) crc = crc8_loop data (crc8_bits 8 (crc XOR d))"

definition crc8 :: "uint8_t list \<Rightarrow> uint8_t" where
  "crc8 data = crc8_loop data 0xFF"

subsection \<open>The reference checksum\<close>

text \<open>
  The checksum in the specification's words: a CRC by polynomial division with
  polynomial \<open>0x31\<close>, initial value \<open>0xFF\<close>, most significant bit first, no reflection
  and no final XOR. Polynomials over GF(2) are natural numbers, bit \<open>i\<close> being the
  coefficient of \<open>x\<^sup>i\<close>; addition and subtraction are \<open>XOR\<close>. The generator
  \<open>x\<^sup>8 + x\<^sup>5 + x\<^sup>4 + 1\<close> is \<open>0x31\<close> with the leading term written out. The message
  polynomial reads the bytes as one big-endian number (first byte, and in each byte the
  top bit, most significant). The dividend is the message times \<open>x\<^sup>8\<close>, with the initial
  value added to its eight leading coefficients. \<open>long_division k a\<close> is schoolbook
  division: for each coefficient from \<open>x\<^sup>k\<^sup>+\<^sup>7\<close> down to \<open>x\<^sup>8\<close> that is set, subtract the
  generator aligned under it; what is left is the remainder.
\<close>

definition GENERATOR :: nat where
  "GENERATOR = 0x131"

fun be_nat :: "uint8_t list \<Rightarrow> nat" where
  "be_nat [] = 0"
| "be_nat (b # bs) = unat b * 2 ^ (8 * length bs) + be_nat bs"

fun long_division :: "nat \<Rightarrow> nat \<Rightarrow> nat" where
  "long_division 0 a = a"
| "long_division (Suc k) a =
     long_division k (if bit a (k + 8) then a XOR push_bit k GENERATOR else a)"

definition crc8_reference :: "uint8_t list \<Rightarrow> nat" where
  "crc8_reference bs =
     long_division (8 * length bs) (push_bit 8 (be_nat bs) XOR push_bit (8 * length bs) 0xFF)"

subsection \<open>Floating point\<close>

text \<open>
  \<^verbatim>\<open>float\<close> and \<^verbatim>\<open>double\<close> values are modelled by the real numbers they denote, and
  every conversion and arithmetic operation rounds its exact result to the nearest value
  with \<open>p\<close> binary digits, ties to even (IEEE 754 without the exponent range, which the
  magnitudes of this driver never leave). \<^verbatim>\<open>float\<close> has 24 digits. \<^verbatim>\<open>double\<close> has 24
  digits on AVR boards and 53 on ESP boards, so its precision is a parameter of the
  platform.
\<close>

definition round_even :: "real \<Rightarrow> int" where
  "round_even y =
     (let f = \<lfloor>y\<rfloor>; r = y - of_int f
      in if r < 1 / 2 then f else if 1 / 2 < r then f + 1 else if even f then f else f + 1)"

definition round_to :: "nat \<Rightarrow> real \<Rightarrow> real" where
  "round_to p x =
     (if x = 0 then 0
      else (let e = \<lfloor>log 2 \<bar>x\<bar>\<rfloor> - (int p - 1)
            in of_int (round_even (x / 2 powr of_int e)) * 2 powr of_int e))"

definition to_float :: "real \<Rightarrow> real" where
  "to_float x = round_to 24 x"

subsection \<open>The bus collaborator and the object\<close>

text \<open>
  Every call on \<^verbatim>\<open>_i2c\<close> and every \<^verbatim>\<open>delay\<close> is one event of the trace, in call order.
\<close>

datatype event =
    WireBegin
  | SetClock nat
  | BeginTransmission uint8_t
  | Write "uint8_t list"
  | EndTransmission
  | RequestFrom uint8_t uint8_t
  | Read
  | Delay nat

text \<open>
  The answers of the bus: what \<^verbatim>\<open>write\<close> returns (bytes written), what
  \<^verbatim>\<open>endTransmission\<close> returns (0 is success) and which bytes \<^verbatim>\<open>requestFrom\<close>
  receives (it returns their number), each as a function of the trace up to and including
  the call. Any deterministic bus is such a triple.
\<close>

record bus =
  write_ret :: "event list \<Rightarrow> nat"
  end_ret :: "event list \<Rightarrow> nat"
  request_ret :: "event list \<Rightarrow> uint8_t list"

text \<open>
  The private members of \<^verbatim>\<open>class TD_SHT31\<close>, followed by the environment: the bus
  behind \<^verbatim>\<open>_i2c\<close>, its receive buffer, the trace, the milliseconds spent in
  \<^verbatim>\<open>delay\<close>, and the number of binary digits of a \<^verbatim>\<open>double\<close>.
\<close>

record sht31 =
  sdaPIN :: uint8_t
  slcPIN :: uint8_t
  i2c_device_address :: uint8_t
  error_code :: int
  humidity :: real
  temperature :: real
  useCRC :: bool
  tUnit :: bool
  i2c :: bus
  rx :: "uint8_t list"
  trace :: "event list"
  clock :: nat
  double_digits :: nat

definition to_double :: "sht31 \<Rightarrow> real \<Rightarrow> real" where
  "to_double s x = round_to (double_digits s) x"

definition log_event :: "event \<Rightarrow> sht31 \<Rightarrow> sht31" where
  "log_event e s = s\<lparr>trace := trace s @ [e]\<rparr>"

definition wire_begin :: "sht31 \<Rightarrow> sht31" where
  "wire_begin s = log_event WireBegin s"

definition wire_setClock :: "nat \<Rightarrow> sht31 \<Rightarrow> sht31" where
  "wire_setClock hz s = log_event (SetClock hz) s"

definition wire_beginTransmission :: "uint8_t \<Rightarrow> sht31 \<Rightarrow> sht31" where
  "wire_beginTransmission a s = log_event (BeginTransmission a) s"

definition wire_write :: "uint8_t list \<Rightarrow> sht31 \<Rightarrow> nat \<times> sht31" where
  "wire_write bs s = (let s' = log_event (Write bs) s in (write_ret (i2c s') (trace s'), s'))"

definition wire_endTransmission :: "sht31 \<Rightarrow> nat \<times> sht31" where
  "wire_endTransmission s =
     (let s' = log_event EndTransmission s in (end_ret (i2c s') (trace s'), s'))"

definition wire_requestFrom :: "uint8_t \<Rightarrow> uint8_t \<Rightarrow> sht31 \<Rightarrow> nat \<times> sht31" where
  "wire_requestFrom a quantity s =
     (let s' = log_event (RequestFrom a quantity) s;
          bytes = request_ret (i2c s') (trace s')
      in (length bytes, s'\<lparr>rx := bytes\<rparr>))"

text \<open>\<^verbatim>\<open>TwoWire::read\<close> returns the next received byte as an \<^verbatim>\<open>int\<close>, or -1 when there is none.\<close>

definition wire_read :: "sht31 \<Rightarrow> int \<times> sht31" where
  "wire_read s =
     (case rx s of
        [] \<Rightarrow> (- 1, log_event Read s)
      | b # bs \<Rightarrow> (uint b, log_event Read (s\<lparr>rx := bs\<rparr>)))"

definition delay :: "nat \<Rightarrow> sht31 \<Rightarrow> sht31" where
  "delay ms s = log_event (Delay ms) (s\<lparr>clock := clock s + ms\<rparr>)"

text \<open>The statement \<^verbatim>\<open>_error_code |= e\<close>.\<close>

definition set_error :: "int \<Rightarrow> sht31 \<Rightarrow> sht31" where
  "set_error e s = s\<lparr>error_code := error_code s OR e\<rparr>"

subsection \<open>Member functions\<close>

text \<open>
  The constructor initialises four members and leaves the others as they are in the
  memory \<open>s\<close> that the object is built in.
\<close>

definition TD_SHT31 :: "uint8_t \<Rightarrow> sht31 \<Rightarrow> sht31" where
  "TD_SHT31 a s =
     s\<lparr>i2c_device_address := a, useCRC := ENABLE_CRC, tUnit := CELSIUS, error_code := NO_ERROR\<rparr>"

definition set_defaults :: "bool \<Rightarrow> bool \<Rightarrow> sht31 \<Rightarrow> sht31" where
  "set_defaults useCRC' tUnit' s = s\<lparr>useCRC := useCRC', tUnit := tUnit'\<rparr>"

definition isSensorConnected :: "sht31 \<Rightarrow> bool \<times> sht31" where
  "isSensorConnected s0 =
     (let s1 = wire_beginTransmission (i2c_device_address s0) s0;
          (retval, s2) = wire_endTransmission s1
      in if retval \<noteq> 0 then (False, set_error ERROR_END_TRANSMISSION s2) else (True, s2))"

definition resetSensor :: "uint16_t \<Rightarrow> sht31 \<Rightarrow> bool \<times> sht31" where
  "resetSensor command s0 =
     (let buffer = [ucast (drop_bit 8 command), ucast (command AND 0xFF)] :: uint8_t list
      in if command \<noteq> CMD_SOFT_RESET \<and> command \<noteq> CMD_GCALL_RESET
         then (False, set_error ERROR_WRONG_COMMAND s0)
         else
           (let s1 = wire_beginTransmission (i2c_device_address s0) s0;
                (n, s2) = wire_write buffer s1;
                s3 = (if n \<noteq> 2 then set_error ERROR_WRITE_LEN s2 else s2);
                (dummy, s4) = wire_endTransmission s3;
                (r, s5) = wire_endTransmission s4
            in if r \<noteq> 0 then (False, set_error ERROR_END_TRANSMISSION s5) else (True, s5)))"

definition begin_wire :: "sht31 \<Rightarrow> bool \<times> sht31" where
  "begin_wire s0 = resetSensor CMD_GCALL_RESET (wire_setClock 100000 (wire_begin s0))"

definition writeCommand :: "uint16_t \<Rightarrow> sht31 \<Rightarrow> bool \<times> sht31" where
  "writeCommand command s0 =
     (let buffer = [ucast (drop_bit 8 command), ucast (command AND 0xFF)] :: uint8_t list;
          s1 = wire_beginTransmission (i2c_device_address s0) s0;
          (n, s2) = wire_write buffer s1;
          s3 = (if n \<noteq> 2 then set_error ERROR_WRITE_LEN s2 else s2);
          (r, s4) = wire_endTransmission s3
      in if r \<noteq> 0 then (False, set_error ERROR_END_TRANSMISSION s4) else (True, s4))"

text \<open>
  \<open>readBytes_loop n i buffer\<close> is the loop \<^verbatim>\<open>for (i = 0; i < len; i++)\<close> with \<open>n\<close>
  rounds left; the assignment converts the \<^verbatim>\<open>int\<close> of \<^verbatim>\<open>read\<close> to a \<^verbatim>\<open>uint8_t\<close>.
  Both callers pass a buffer of exactly \<^verbatim>\<open>len\<close> bytes, so every index is in range.
\<close>

fun readBytes_loop :: "nat \<Rightarrow> nat \<Rightarrow> uint8_t list \<Rightarrow> sht31 \<Rightarrow> uint8_t list \<times> sht31" where
  "readBytes_loop 0 i buffer s = (buffer, s)"
| "readBytes_loop (Suc n) i buffer s =
     (let (b, s') = wire_read s in readBytes_loop n (Suc i) (buffer[i := word_of_int b]) s')"

definition readBytes :: "uint8_t list \<Rightarrow> uint8_t \<Rightarrow> sht31 \<Rightarrow> bool \<times> uint8_t list \<times> sht31" where
  "readBytes buffer len s0 =
     (let (retval, s1) = wire_requestFrom (i2c_device_address s0) len s0
      in if retval = unat len
         then (let (buffer', s2) = readBytes_loop (unat len) 0 buffer s1 in (True, buffer', s2))
         else (False, buffer, set_error ERROR_REQUEST_LEN s1))"

text \<open>
  \<^verbatim>\<open>uint16_t data = (buffer[0] << 8) + buffer[1]\<close>: the bytes are promoted, combined
  and converted to 16 bits.
\<close>

definition be16 :: "uint8_t \<Rightarrow> uint8_t \<Rightarrow> uint16_t" where
  "be16 hi lo = push_bit 8 (ucast hi) + ucast lo"

text \<open>
  The local \<^verbatim>\<open>buffer[6]\<close> is not initialised; it is only used after \<^verbatim>\<open>readBytes\<close> has
  filled all six bytes, so the model starts it with zeros. \<^verbatim>\<open>data\<close> is converted to
  \<^verbatim>\<open>double\<close>, the arithmetic is \<^verbatim>\<open>double\<close> arithmetic (the \<^verbatim>\<open>int\<close> literals are converted
  too), and the assignment converts the result to \<^verbatim>\<open>float\<close>.
\<close>

definition readSensorData :: "sht31 \<Rightarrow> bool \<times> sht31" where
  "readSensorData s0 =
     (let (ok, buffer, s1) = readBytes (replicate 6 0) 6 s0
      in if \<not> ok then (False, s1)
         else if useCRC s1 \<and> buffer ! 2 \<noteq> crc8 (take 2 buffer)
         then (False, set_error ERROR_CRC_CHECK s1)
         else if useCRC s1 \<and> buffer ! 5 \<noteq> crc8 (take 2 (drop 3 buffer))
         then (False, set_error ERROR_CRC_CHECK s1)
         else
           (let rd = to_double s1;
                data = be16 (buffer ! 0) (buffer ! 1);
                s2 = (if tUnit s1
                      then s1\<lparr>temperature :=
                              to_float (rd (rd (rd (real (unat data)) * rd (rd 175 / rd 65535)) - rd 45))\<rparr>
                      else s1\<lparr>temperature :=
                              to_float (rd (rd (rd (real (unat data)) * rd (rd 315 / rd 65535)) - rd 49))\<rparr>);
                data' = be16 (buffer ! 3) (buffer ! 4)
            in (True, s2\<lparr>humidity :=
                          to_float (rd (rd (real (unat data')) * rd (rd 100 / rd 65535)))\<rparr>)))"

text \<open>
  The out-parameters \<^verbatim>\<open>*fT\<close> and \<^verbatim>\<open>*fH\<close> are passed in with their current values and
  returned. \<^verbatim>\<open>u8Delay\<close> is a \<^verbatim>\<open>uint8_t\<close>.
\<close>

definition runSingleShot ::
    "uint16_t \<Rightarrow> real \<Rightarrow> real \<Rightarrow> sht31 \<Rightarrow> bool \<times> real \<times> real \<times> sht31" where
  "runSingleShot u16Command fT fH s0 =
     (if u16Command \<noteq> CMD_SS_CSD_HIGH \<and> u16Command \<noteq> CMD_SS_CSD_MEDIUM
         \<and> u16Command \<noteq> CMD_SS_CSD_LOW
      then (False, fT, fH, set_error ERROR_WRONG_COMMAND s0)
      else
        (let (w, s1) = writeCommand u16Command s0
         in if \<not> w then (False, fT, fH, s1)
            else
              (let u8Delay = (if u16Command = CMD_SS_CSD_HIGH then 16
                              else if u16Command = CMD_SS_CSD_MEDIUM then 7
                              else if u16Command = CMD_SS_CSD_LOW then 5
                              else 16) :: uint8_t;
                   s2 = delay (unat u8Delay) s1;
                   (r, s3) = readSensorData s2
               in if r then (True, temperature s3, humidity s3, s3)
                  else (False, fT, fH, s3))))"

text \<open>The conversion of an integer to \<^verbatim>\<open>bool\<close> in a \<^verbatim>\<open>return\<close> statement.\<close>

definition int_to_bool :: "int \<Rightarrow> bool" where
  "int_to_bool n = (n \<noteq> 0)"

definition clearSensorStatus :: "sht31 \<Rightarrow> bool \<times> sht31" where
  "clearSensorStatus s0 =
     (let (w, s1) = writeCommand CMD_CLEAR_STATUS s0
      in if \<not> w then (int_to_bool 0xFFFF, s1) else (True, s1))"

definition readSensorStatus :: "sht31 \<Rightarrow> uint16_t \<times> sht31" where
  "readSensorStatus s0 =
     (let (w, s1) = writeCommand CMD_READ_STATUS s0
      in if \<not> w then (0xFFFF, s1)
         else
           (let (ok, buffer, s2) = readBytes [0, 0, 0] 3 s1
            in if \<not> ok then (0xFFFF, s2)
               else if buffer ! 2 \<noteq> crc8 (take 2 buffer)
               then (0xFFFF, set_error ERROR_CRC_CHECK s2)
               else (be16 (buffer ! 0) (buffer ! 1), s2)))"

definition getLastError :: "sht31 \<Rightarrow> int \<times> sht31" where
  "getLastError s = (let retval = error_code s in (retval, s\<lparr>error_code := NO_ERROR\<rparr>))"

subsection \<open>The public calls and the faults they raise\<close>

text \<open>
  The public member functions that touch the bus, as values, so that statements can range
  over sequences of calls. \<open>exec c s\<close> is the object after call \<open>c\<close>; \<open>faults c s\<close> are
  the bits that the call raises when it starts from \<open>s\<close> with the accumulator empty.
\<close>

datatype call =
    IsSensorConnected
  | ResetSensor uint16_t
  | RunSingleShot uint16_t
  | ClearSensorStatus
  | ReadSensorStatus

fun exec :: "call \<Rightarrow> sht31 \<Rightarrow> sht31" where
  "exec IsSensorConnected s = snd (isSensorConnected s)"
| "exec (ResetSensor c) s = snd (resetSensor c s)"
| "exec (RunSingleShot c) s = snd (snd (snd (runSingleShot c 0 0 s)))"
| "exec ClearSensorStatus s = snd (clearSensorStatus s)"
| "exec ReadSensorStatus s = snd (readSensorStatus s)"

definition faults :: "call \<Rightarrow> sht31 \<Rightarrow> int" where
  "faults c s = error_code (exec c (s\<lparr>error_code := NO_ERROR\<rparr>))"

text \<open>The eight fault flags of the error taxonomy, in the order the specification lists them.\<close>

definition fault_flags :: "int list" where
  "fault_flags =
     [ERROR_WRITE_LEN, ERROR_END_TRANSMISSION, ERROR_REQUEST_LEN, ERROR_WRONG_COMMAND,
      ERROR_CRC_CHECK, ERROR_NOT_CONNECTED, ERROR_WRONG_SENSOR_ID, ERROR_FM_TIMEOUT]"

subsection \<open>Names for what the statements talk about\<close>

text \<open>
  \<open>response n s\<close>: the bytes that the bus delivers when \<^verbatim>\<open>requestFrom\<close> asks for \<open>n\<close>
  bytes in state \<open>s\<close>.
\<close>

definition response :: "uint8_t \<Rightarrow> sht31 \<Rightarrow> uint8_t list" where
  "response n s = request_ret (i2c s) (trace s @ [RequestFrom (i2c_device_address s) n])"

text \<open>
  The two conversions of \<open>readSensorData\<close>, as functions of the raw 16-bit code
  (\<open>readSensorData_eq\<close> below shows that they are what the function stores).
\<close>

definition to_temperature :: "sht31 \<Rightarrow> uint16_t \<Rightarrow> real" where
  "to_temperature s data =
     (let rd = to_double s
      in if tUnit s
         then to_float (rd (rd (rd (real (unat data)) * rd (rd 175 / rd 65535)) - rd 45))
         else to_float (rd (rd (rd (real (unat data)) * rd (rd 315 / rd 65535)) - rd 49)))"

definition to_humidity :: "sht31 \<Rightarrow> uint16_t \<Rightarrow> real" where
  "to_humidity s data =
     (let rd = to_double s in to_float (rd (rd (real (unat data)) * rd (rd 100 / rd 65535))))"

text \<open>
  The timing policy in the specification's words: the minimum delay after the command
  write is 16 ms for high, 7 ms for medium and 5 ms for low repeatability.
\<close>

definition min_conversion_delay :: "uint16_t \<Rightarrow> nat" where
  "min_conversion_delay c =
     (if c = CMD_SS_CSD_HIGH then 16 else if c = CMD_SS_CSD_MEDIUM then 7 else 5)"

subsection \<open>Concrete buses and a concrete object\<close>

text \<open>
  \<open>answer bytes\<close> serves a \<^verbatim>\<open>requestFrom\<close> of \<open>n\<close> bytes with the first \<open>n\<close> of
  \<open>bytes\<close>. \<open>frame\<close> is a measurement response with both checksums right; its first
  three bytes are the data sheet's example \<open>0xBEEF\<close> with checksum \<open>0x92\<close>.
\<close>

definition answer :: "uint8_t list \<Rightarrow> event list \<Rightarrow> uint8_t list" where
  "answer bytes t = (case last t of RequestFrom a n \<Rightarrow> take (unat n) bytes | _ \<Rightarrow> [])"

definition frame :: "uint8_t list" where
  "frame = [0xBE, 0xEF, 0x92, 0x6A, 0x65, 0x74]"

definition bus_good :: bus where
  "bus_good = \<lparr>write_ret = (\<lambda>t. 2), end_ret = (\<lambda>t. 0), request_ret = answer frame\<rparr>"

text \<open>A bus on which no device acknowledges its address.\<close>

definition bus_nack :: bus where
  "bus_nack = \<lparr>write_ret = (\<lambda>t. 2), end_ret = (\<lambda>t. 2), request_ret = answer frame\<rparr>"

text \<open>A bus that delivers two bytes at most.\<close>

definition bus_short :: bus where
  "bus_short = \<lparr>write_ret = (\<lambda>t. 2), end_ret = (\<lambda>t. 0), request_ret = answer [0xBE, 0xEF]\<rparr>"

text \<open>A bus that delivers \<open>frame\<close> with both checksum bytes corrupted.\<close>

definition bus_corrupt :: bus where
  "bus_corrupt =
     \<lparr>write_ret = (\<lambda>t. 2), end_ret = (\<lambda>t. 0),
      request_ret = answer [0xBE, 0xEF, 0x93, 0x6A, 0x65, 0x75]\<rparr>"

definition session :: "bus \<Rightarrow> sht31" where
  "session b =
     \<lparr>sdaPIN = 0, slcPIN = 0, i2c_device_address = 0x44, error_code = NO_ERROR,
      humidity = 50, temperature = 20, useCRC = ENABLE_CRC, tUnit = CELSIUS, i2c = b,
      rx = [], trace = [], clock = 0, double_digits = 24\<rparr>"

text \<open>The object on the corrupting bus, reconfigured with checksum enforcement disabled.\<close>

definition session_no_crc :: sht31 where
  "session_no_crc = set_defaults DISABLE_CRC CELSIUS (session bus_corrupt)"

section \<open>Properties\<close>

lemmas cmd_defs =
  CMD_SS_CSD_HIGH_def CMD_SS_CSD_MEDIUM_def CMD_SS_CSD_LOW_def CMD_SOFT_RESET_def
  CMD_GCALL_RESET_def CMD_READ_STATUS_def CMD_CLEAR_STATUS_def

lemmas error_defs =
  NO_ERROR_def ERROR_TRANSMISSION_LEN_def ERROR_END_TRANSMISSION_def ERROR_REQUEST_LEN_def
  ERROR_WRITE_LEN_def ERROR_WRONG_SENSOR_ID_def ERROR_FM_TIMEOUT_def ERROR_NOT_CONNECTED_def
  ERROR_CRC_CHECK_def ERROR_WRONG_COMMAND_def

subsection \<open>The member functions in closed form\<close>

lemma wire_read_Cons:
  "rx s = b # bs \<Longrightarrow> wire_read s = (uint b, s\<lparr>rx := bs, trace := trace s @ [Read]\<rparr>)"
  by (simp add: wire_read_def log_event_def)

text \<open>
  With enough received bytes and a large enough buffer the read loop copies the next \<open>n\<close>
  bytes to positions \<open>i .. i + n - 1\<close>.
\<close>

lemma readBytes_loop_eq:
  "n \<le> length (rx s) \<Longrightarrow> i + n \<le> length buffer \<Longrightarrow>
   readBytes_loop n i buffer s =
     (take i buffer @ take n (rx s) @ drop (i + n) buffer,
      s\<lparr>rx := drop n (rx s), trace := trace s @ replicate n Read\<rparr>)"
proof (induction n arbitrary: i buffer s)
  case 0
  then show ?case by simp
next
  case (Suc n)
  then obtain b bs where rx: "rx s = b # bs"
    by (cases "rx s") auto
  let ?s = "s\<lparr>rx := bs, trace := trace s @ [Read]\<rparr>"
  have a: "n \<le> length (rx ?s)" using Suc.prems rx by simp
  have b: "Suc i + n \<le> length (buffer[i := b])" using Suc.prems by simp
  have i: "i < length buffer" using Suc.prems by simp
  have t: "take (Suc i) (buffer[i := b]) = take i buffer @ [b]"
    using i by (simp add: take_Suc_conv_app_nth)
  show ?case
    using Suc.IH [OF a b] i t
    by (simp add: wire_read_Cons [OF rx] rx replicate_app_Cons_same)
qed

lemma readBytes_eq:
  assumes "length buffer = unat len"
  shows "readBytes buffer len s =
     (let t = trace s @ [RequestFrom (i2c_device_address s) len];
          resp = request_ret (i2c s) t
      in if length resp = unat len
         then (True, resp, s\<lparr>rx := [], trace := t @ replicate (unat len) Read\<rparr>)
         else (False, buffer,
               s\<lparr>rx := resp, trace := t, error_code := error_code s OR ERROR_REQUEST_LEN\<rparr>))"
  using assms
  by (simp add: readBytes_def wire_requestFrom_def log_event_def Let_def readBytes_loop_eq
      set_error_def)

lemma writeCommand_eq:
  "writeCommand command s =
     (let buffer = [ucast (drop_bit 8 command), ucast (command AND 0xFF)];
          t1 = trace s @ [BeginTransmission (i2c_device_address s), Write buffer];
          t2 = t1 @ [EndTransmission];
          e1 = (if write_ret (i2c s) t1 \<noteq> 2 then error_code s OR ERROR_WRITE_LEN
                else error_code s)
      in if end_ret (i2c s) t2 \<noteq> 0
         then (False, s\<lparr>trace := t2, error_code := e1 OR ERROR_END_TRANSMISSION\<rparr>)
         else (True, s\<lparr>trace := t2, error_code := e1\<rparr>))"
  by (simp add: writeCommand_def wire_beginTransmission_def wire_write_def
      wire_endTransmission_def log_event_def Let_def set_error_def)

lemma resetSensor_eq:
  "resetSensor command s =
     (if command \<noteq> CMD_SOFT_RESET \<and> command \<noteq> CMD_GCALL_RESET
      then (False, s\<lparr>error_code := error_code s OR ERROR_WRONG_COMMAND\<rparr>)
      else
        (let buffer = [ucast (drop_bit 8 command), ucast (command AND 0xFF)];
             t1 = trace s @ [BeginTransmission (i2c_device_address s), Write buffer];
             t2 = t1 @ [EndTransmission, EndTransmission];
             e1 = (if write_ret (i2c s) t1 \<noteq> 2 then error_code s OR ERROR_WRITE_LEN
                   else error_code s)
         in if end_ret (i2c s) t2 \<noteq> 0
            then (False, s\<lparr>trace := t2, error_code := e1 OR ERROR_END_TRANSMISSION\<rparr>)
            else (True, s\<lparr>trace := t2, error_code := e1\<rparr>)))"
  by (simp add: resetSensor_def wire_beginTransmission_def wire_write_def
      wire_endTransmission_def log_event_def Let_def set_error_def)

lemma to_double_update [simp]:
  "to_double (s\<lparr>rx := r\<rparr>) = to_double s"
  "to_double (s\<lparr>trace := t\<rparr>) = to_double s"
  "to_double (s\<lparr>error_code := e\<rparr>) = to_double s"
  "to_double (s\<lparr>clock := c\<rparr>) = to_double s"
  "to_double (s\<lparr>temperature := x\<rparr>) = to_double s"
  "to_double (s\<lparr>humidity := x\<rparr>) = to_double s"
  by (simp_all add: to_double_def fun_eq_iff)

lemma readSensorData_eq:
  "readSensorData s =
     (let t = trace s @ [RequestFrom (i2c_device_address s) 6];
          resp = response 6 s
      in if length resp \<noteq> 6
         then (False, s\<lparr>rx := resp, trace := t,
                         error_code := error_code s OR ERROR_REQUEST_LEN\<rparr>)
         else if useCRC s \<and> (resp ! 2 \<noteq> crc8 (take 2 resp)
                            \<or> resp ! 5 \<noteq> crc8 (take 2 (drop 3 resp)))
         then (False, s\<lparr>rx := [], trace := t @ replicate 6 Read,
                         error_code := error_code s OR ERROR_CRC_CHECK\<rparr>)
         else (True, s\<lparr>rx := [], trace := t @ replicate 6 Read,
                        temperature := to_temperature s (be16 (resp ! 0) (resp ! 1)),
                        humidity := to_humidity s (be16 (resp ! 3) (resp ! 4))\<rparr>))"
  by (simp add: readSensorData_def readBytes_eq response_def Let_def set_error_def
      to_temperature_def to_humidity_def)

lemma readSensorStatus_eq:
  "readSensorStatus s =
     (let (w, s1) = writeCommand CMD_READ_STATUS s
      in if \<not> w then (0xFFFF, s1)
         else
           (let t = trace s1 @ [RequestFrom (i2c_device_address s1) 3];
                resp = response 3 s1
            in if length resp \<noteq> 3
               then (0xFFFF, s1\<lparr>rx := resp, trace := t,
                                 error_code := error_code s1 OR ERROR_REQUEST_LEN\<rparr>)
               else if resp ! 2 \<noteq> crc8 (take 2 resp)
               then (0xFFFF, s1\<lparr>rx := [], trace := t @ replicate 3 Read,
                                 error_code := error_code s1 OR ERROR_CRC_CHECK\<rparr>)
               else (be16 (resp ! 0) (resp ! 1),
                     s1\<lparr>rx := [], trace := t @ replicate 3 Read\<rparr>)))"
  by (simp add: readSensorStatus_def readBytes_eq response_def Let_def set_error_def
      split: prod.splits)

lemma runSingleShot_eq:
  "runSingleShot c fT fH s =
     (if c \<noteq> CMD_SS_CSD_HIGH \<and> c \<noteq> CMD_SS_CSD_MEDIUM \<and> c \<noteq> CMD_SS_CSD_LOW
      then (False, fT, fH, s\<lparr>error_code := error_code s OR ERROR_WRONG_COMMAND\<rparr>)
      else if \<not> fst (writeCommand c s) then (False, fT, fH, snd (writeCommand c s))
      else
        (let s2 = delay (min_conversion_delay c) (snd (writeCommand c s));
             s3 = snd (readSensorData s2)
         in if fst (readSensorData s2) then (True, temperature s3, humidity s3, s3)
            else (False, fT, fH, s3)))"
  by (simp add: runSingleShot_def Let_def min_conversion_delay_def set_error_def cmd_defs
      split: prod.splits)

lemma runSingleShot_valid:
  assumes "c = CMD_SS_CSD_HIGH \<or> c = CMD_SS_CSD_MEDIUM \<or> c = CMD_SS_CSD_LOW"
  shows "runSingleShot c fT fH s =
     (if \<not> fst (writeCommand c s) then (False, fT, fH, snd (writeCommand c s))
      else
        (let s2 = delay (min_conversion_delay c) (snd (writeCommand c s));
             s3 = snd (readSensorData s2)
         in if fst (readSensorData s2) then (True, temperature s3, humidity s3, s3)
            else (False, fT, fH, s3)))"
  using assms by (auto simp add: runSingleShot_eq)

lemma getLastError_eq: "getLastError s = (error_code s, s\<lparr>error_code := NO_ERROR\<rparr>)"
  by (simp add: getLastError_def)

text \<open>The 16-bit value assembled from two bytes.\<close>

lemma unat_be16: "unat (be16 hi lo) = 256 * unat hi + unat lo"
proof -
  have h: "unat hi < 256" using unsigned_less [of hi, where 'a = nat] by simp
  have l: "unat lo < 256" using unsigned_less [of lo, where 'a = nat] by simp
  have a: "unat (ucast hi :: uint16_t) = unat hi"
    using h by (simp add: unsigned_ucast_eq take_bit_eq_mod)
  have b: "unat (ucast lo :: uint16_t) = unat lo"
    using l by (simp add: unsigned_ucast_eq take_bit_eq_mod)
  have c: "unat (push_bit 8 (ucast hi :: uint16_t)) = 256 * unat hi"
    using h by (simp add: push_bit_eq_mult unat_word_ariths a)
  show ?thesis
    using h l by (simp add: be16_def unat_word_ariths b c)
qed

subsection \<open>What each function leaves alone\<close>

lemma writeCommand_frame [simp]:
  "i2c (snd (writeCommand c s)) = i2c s"
  "i2c_device_address (snd (writeCommand c s)) = i2c_device_address s"
  "temperature (snd (writeCommand c s)) = temperature s"
  "humidity (snd (writeCommand c s)) = humidity s"
  "useCRC (snd (writeCommand c s)) = useCRC s"
  "tUnit (snd (writeCommand c s)) = tUnit s"
  "clock (snd (writeCommand c s)) = clock s"
  "rx (snd (writeCommand c s)) = rx s"
  "double_digits (snd (writeCommand c s)) = double_digits s"
  by (simp_all add: writeCommand_eq Let_def)

lemma writeCommand_trace:
  "trace (snd (writeCommand c s)) =
     trace s @ [BeginTransmission (i2c_device_address s),
                Write [ucast (drop_bit 8 c), ucast (c AND 0xFF)], EndTransmission]"
  by (simp add: writeCommand_eq Let_def)

lemma delay_frame [simp]:
  "i2c (delay d s) = i2c s"
  "i2c_device_address (delay d s) = i2c_device_address s"
  "temperature (delay d s) = temperature s"
  "humidity (delay d s) = humidity s"
  "useCRC (delay d s) = useCRC s"
  "tUnit (delay d s) = tUnit s"
  "error_code (delay d s) = error_code s"
  "rx (delay d s) = rx s"
  "double_digits (delay d s) = double_digits s"
  "clock (delay d s) = clock s + d"
  "trace (delay d s) = trace s @ [Delay d]"
  by (simp_all add: delay_def log_event_def)

lemma readSensorData_frame [simp]:
  "clock (snd (readSensorData s)) = clock s"
  "i2c (snd (readSensorData s)) = i2c s"
  "useCRC (snd (readSensorData s)) = useCRC s"
  "tUnit (snd (readSensorData s)) = tUnit s"
  by (simp_all add: readSensorData_eq Let_def)

lemma set_defaults_fields [simp]:
  "useCRC (set_defaults u t s) = u" "tUnit (set_defaults u t s) = t"
  "i2c (set_defaults u t s) = i2c s" "trace (set_defaults u t s) = trace s"
  "error_code (set_defaults u t s) = error_code s"
  "i2c_device_address (set_defaults u t s) = i2c_device_address s"
  by (simp_all add: set_defaults_def)

lemma session_fields [simp]:
  "clock (session b) = 0" "trace (session b) = []" "i2c (session b) = b"
  "i2c_device_address (session b) = 0x44" "temperature (session b) = 20"
  "humidity (session b) = 50" "useCRC (session b)" "tUnit (session b)"
  "error_code (session b) = 0" "rx (session b) = []"
  by (simp_all add: session_def ENABLE_CRC_def CELSIUS_def NO_ERROR_def)

lemma writeCommand_session:
  "writeCommand c (session b) =
     (let t1 = [BeginTransmission 0x44, Write [ucast (drop_bit 8 c), ucast (c AND 0xFF)]];
          t2 = t1 @ [EndTransmission];
          e1 = (if write_ret b t1 \<noteq> 2 then ERROR_WRITE_LEN else NO_ERROR)
      in if end_ret b t2 \<noteq> 0
         then (False, (session b)\<lparr>trace := t2, error_code := e1 OR ERROR_END_TRANSMISSION\<rparr>)
         else (True, (session b)\<lparr>trace := t2, error_code := e1\<rparr>))"
  by (simp add: writeCommand_eq Let_def) (simp add: session_def NO_ERROR_def)

lemma writeCommand_on_buses:
  "fst (writeCommand c (session bus_good))" "fst (writeCommand c (session bus_short))"
  "fst (writeCommand c (session bus_corrupt))" "\<not> fst (writeCommand c (session bus_nack))"
  by (simp_all add: writeCommand_session bus_good_def bus_short_def bus_corrupt_def bus_nack_def)

lemma response_after_write:
  "response 3 (snd (writeCommand c (session b))) = request_ret b
     [BeginTransmission 0x44, Write [ucast (drop_bit 8 c), ucast (c AND 0xFF)],
      EndTransmission, RequestFrom 0x44 3]"
  by (simp add: response_def writeCommand_trace)

lemma response_after_delay:
  "response 6 (delay d (snd (writeCommand c (session b)))) = request_ret b
     [BeginTransmission 0x44, Write [ucast (drop_bit 8 c), ucast (c AND 0xFF)],
      EndTransmission, Delay d, RequestFrom 0x44 6]"
  by (simp add: response_def writeCommand_trace)

lemma crc8_BEEF: "crc8 [0xBE, 0xEF] = 0x92"
  by code_simp

subsection \<open>The checksum is the remainder of polynomial division\<close>

text \<open>One round of the inner loop, read on the numbers that the bytes denote.\<close>

lemma and_0x80: "(r AND 0x80 \<noteq> 0) = bit r 7" for r :: uint8_t
proof -
  have "(0x80 :: uint8_t) = 2 ^ 7" by simp
  then show ?thesis by (simp only: and_exp_eq_0_iff_not_bit) simp
qed

lemma unat_lt_256: "unat r < 256" for r :: uint8_t
  using unsigned_less [of r, where 'a = nat] by simp

lemma bit7_iff: "bit r 7 \<longleftrightarrow> 128 \<le> unat r" for r :: uint8_t
proof -
  have "bit (unat r) 7 \<longleftrightarrow> bit r 7"
    by (simp add: bit_unsigned_iff)
  moreover have "bit (unat r) 7 \<longleftrightarrow> odd (unat r div 128)"
    by (simp add: bit_iff_odd)
  ultimately have b: "bit r 7 \<longleftrightarrow> odd (unat r div 128)"
    by simp
  show ?thesis
  proof (cases "128 \<le> unat r")
    case True
    have "unat r div 128 = 1"
      by (rule div_nat_eqI) (use True unat_lt_256 [of r] in simp_all)
    then show ?thesis using True b by simp
  next
    case False
    then have "unat r div 128 = 0" by simp
    then show ?thesis using False b by simp
  qed
qed

lemma unat_shift: "unat (r * 2) = (2 * unat r) mod 256" for r :: uint8_t
  by (simp add: unat_word_ariths mult.commute)

lemma add_256_xor: "t < 256 \<Longrightarrow> 256 + t = 256 XOR t" for t :: nat
proof -
  assume "t < 256"
  then have "\<not> bit t 8" by (simp add: bit_iff_odd)
  then have "t AND 2 ^ 8 = 0" by (rule and_exp_eq_0_iff_not_bit [THEN iffD2])
  then have "256 AND t = 0" by (simp add: and.commute)
  then show ?thesis by (rule disjunctive_add_eq_xor)
qed

lemma xor_cancel_left: "(a XOR t) XOR (a XOR b) = t XOR b" for a t b :: nat
proof -
  have "(a XOR t) XOR (a XOR b) = (a XOR a) XOR (t XOR b)"
    by (simp only: xor.assoc xor.left_commute)
  then show ?thesis by simp
qed

lemma unat_step_clear:
  "\<not> bit r 7 \<Longrightarrow> unat (push_bit 1 r) = 2 * unat r" for r :: uint8_t
  by (simp add: unat_shift bit7_iff)

lemma unat_step_set:
  fixes r :: uint8_t
  assumes "bit r 7"
  shows "unat (push_bit 1 r XOR POLY) = (2 * unat r) XOR GENERATOR"
proof -
  define t where "t = 2 * unat r - 256"
  have t: "t < 256" "2 * unat r = 256 + t"
    using assms unat_lt_256 [of r] by (simp_all add: bit7_iff t_def)
  have "(2 * unat r) mod 256 = t"
    by (simp only: t) (use t(1) in simp)
  then have l: "unat (push_bit 1 r XOR POLY) = t XOR 49"
    by (simp add: unsigned_xor_eq unat_shift POLY_def)
  have g: "GENERATOR = 256 XOR 49" by (simp add: GENERATOR_def)
  have "(2 * unat r) XOR GENERATOR = (256 XOR t) XOR (256 XOR 49)"
    by (simp only: t(2) g add_256_xor [OF t(1)])
  also have "\<dots> = t XOR 49"
    by (rule xor_cancel_left)
  finally show ?thesis using l by simp
qed


lemma bit_less_exp: "bit y m \<Longrightarrow> m < n" if "y < 2 ^ n" for y :: nat
proof -
  assume b: "bit y m"
  from that have "take_bit n y = y" by (simp add: take_bit_nat_eq_self)
  then have "bit y m \<longleftrightarrow> m < n \<and> bit y m"
    by (metis bit_take_bit_iff)
  with b show "m < n" by simp
qed

lemma push_bit_add_low:
  "y < 2 ^ n \<Longrightarrow> push_bit n x + y = push_bit n x XOR y" for x y :: nat
proof (rule disjunctive_add_eq_xor, rule bit_eqI)
  fix m
  assume "y < 2 ^ n"
  then have "bit y m \<Longrightarrow> m < n" by (rule bit_less_exp)
  then show "bit (push_bit n x AND y) m \<longleftrightarrow> bit (0 :: nat) m"
    by (auto simp add: bit_and_iff bit_push_bit_iff)
qed

lemma be_nat_less: "be_nat bs < 2 ^ (8 * length bs)"
proof (induction bs)
  case Nil
  then show ?case by simp
next
  case (Cons b bs)
  have "unat b * 2 ^ (8 * length bs) + be_nat bs
      < unat b * 2 ^ (8 * length bs) + 2 ^ (8 * length bs)"
    using Cons.IH by simp
  also have "\<dots> = (unat b + 1) * 2 ^ (8 * length bs)"
    by (simp add: algebra_simps)
  also have "\<dots> \<le> 256 * 2 ^ (8 * length bs)"
    using unat_lt_256 [of b] by (intro mult_right_mono) simp_all
  finally show ?case by (simp add: power_add)
qed

lemma long_division_step:
  fixes r :: uint8_t
  assumes "L < 2 ^ (k + 8)"
  shows "long_division (Suc k) (push_bit (Suc k) (unat r) XOR L) =
    long_division k
      (push_bit k (unat (if r AND 0x80 \<noteq> 0 then push_bit 1 r XOR POLY else push_bit 1 r)) XOR L)"
proof -
  let ?D = "push_bit (Suc k) (unat r) XOR L"
  have "\<not> bit L (k + 8)"
    using bit_less_exp [OF assms, of "k + 8"] by auto
  moreover have "bit (push_bit (Suc k) (unat r)) (k + 8) \<longleftrightarrow> bit r 7"
    by (simp add: bit_push_bit_iff bit_unsigned_iff del: push_bit_Suc)
  ultimately have t: "bit ?D (k + 8) \<longleftrightarrow> bit r 7"
    by (simp add: bit_xor_iff)
  have d: "push_bit (Suc k) (unat r) = push_bit k (2 * unat r)"
    by (simp add: mult.commute)
  show ?thesis
  proof (cases "bit r 7")
    case True
    have "?D XOR push_bit k GENERATOR = push_bit k (2 * unat r XOR GENERATOR) XOR L"
      by (simp only: d push_bit_xor xor.assoc xor.commute [of L])
    then show ?thesis
      using True t by (simp only: long_division.simps and_0x80 unat_step_set [OF True] if_True)
  next
    case False
    show ?thesis
      using False t
      by (simp only: long_division.simps and_0x80 unat_step_clear [OF False] d if_False)
  qed
qed

lemma long_division_bits:
  fixes r :: uint8_t
  assumes "L < 2 ^ (k + 8)"
  shows "long_division (k + j) (push_bit (k + j) (unat r) XOR L) =
    long_division k (push_bit k (unat (crc8_bits j r)) XOR L)"
proof (induction j arbitrary: r)
  case 0
  then show ?case by simp
next
  case (Suc j)
  have "L < 2 ^ (k + j + 8)"
  proof -
    have "(2::nat) ^ (k + 8) \<le> 2 ^ (k + j + 8)" by (rule power_increasing) simp_all
    with assms show ?thesis by (rule less_le_trans)
  qed
  from long_division_step [OF this, of r] Suc.IH show ?case
    by (simp only: add_Suc_right crc8_bits.simps)
qed

lemma long_division_bytes:
  "long_division (8 * length bs) (push_bit (8 * length bs) (unat r) XOR push_bit 8 (be_nat bs))
     = unat (crc8_loop bs r)"
proof (induction bs arbitrary: r)
  case Nil
  then show ?case by simp
next
  case (Cons b bs)
  let ?n = "8 * length bs"
  let ?L = "push_bit 8 (be_nat bs)"
  have L: "?L < 2 ^ (?n + 8)"
    using be_nat_less [of bs] by (simp add: push_bit_eq_mult power_add)
  have "be_nat (b # bs) = push_bit ?n (unat b) XOR be_nat bs"
    using push_bit_add_low [OF be_nat_less, of bs "unat b"] by (simp add: push_bit_eq_mult)
  then have "push_bit 8 (be_nat (b # bs)) = push_bit (?n + 8) (unat b) XOR ?L"
    by (simp add: push_bit_add add.commute flip: push_bit_push_bit)
  then have "push_bit (?n + 8) (unat r) XOR push_bit 8 (be_nat (b # bs))
      = push_bit (?n + 8) (unat (r XOR b)) XOR ?L"
    by (simp add: unsigned_xor_eq xor.assoc)
  moreover have "8 * length (b # bs) = ?n + 8" by simp
  ultimately show ?case
    using long_division_bits [OF L, of 8 "r XOR b"] Cons.IH [of "crc8_bits 8 (r XOR b)"]
    by (simp only: crc8_loop.simps)
qed

text \<open>
  C1. \<open>crc8\<close> is a function of the byte span alone, and for every span its value is
  the reference checksum: the remainder of the division of the message polynomial
  (times \<open>x\<^sup>8\<close>, initial value \<open>0xFF\<close> added at the top) by \<open>x\<^sup>8 + x\<^sup>5 + x\<^sup>4 + 1\<close>, most
  significant bit first, nothing reflected, nothing XORed at the end. On the data sheet's
  example \<open>0xBE 0xEF\<close> it is \<open>0x92\<close>.
\<close>

theorem crc8_is_polynomial_remainder:
  "unat (crc8 data) = crc8_reference data \<and> crc8 [0xBE, 0xEF] = 0x92"
proof -
  have "push_bit 8 (be_nat data) XOR push_bit (8 * length data) 0xFF
      = push_bit (8 * length data) (unat (0xFF :: uint8_t)) XOR push_bit 8 (be_nat data)"
    by (simp add: xor.commute)
  then have "crc8_reference data = unat (crc8 data)"
    by (simp only: crc8_reference_def crc8_def long_division_bytes)
  then show ?thesis by (simp add: crc8_BEEF)
qed

subsection \<open>Reset\<close>

text \<open>
  C7. For every 16-bit command other than \<open>CMD_SOFT_RESET\<close> and \<open>CMD_GCALL_RESET\<close>,
  \<open>resetSensor\<close> returns false and changes nothing but the accumulator, into which it
  ORs \<open>ERROR_WRONG_COMMAND\<close>: the trace of bus calls and the receive buffer are as
  before, so no bus operation has taken place.
\<close>

theorem resetSensor_rejects_other_commands:
  assumes "command \<noteq> CMD_SOFT_RESET" and "command \<noteq> CMD_GCALL_RESET"
  shows "resetSensor command s =
           (False, s\<lparr>error_code := error_code s OR ERROR_WRONG_COMMAND\<rparr>)
    \<and> trace (snd (resetSensor command s)) = trace s
    \<and> rx (snd (resetSensor command s)) = rx s"
  using assms by (simp add: resetSensor_def set_error_def)

theorem resetSensor_rejects_other_commands_witness:
  "(0x1234 :: uint16_t) \<noteq> CMD_SOFT_RESET \<and> (0x1234 :: uint16_t) \<noteq> CMD_GCALL_RESET
   \<and> fst (resetSensor 0x1234 (session bus_good)) = False
   \<and> error_code (snd (resetSensor 0x1234 (session bus_good))) = ERROR_WRONG_COMMAND
   \<and> trace (snd (resetSensor 0x1234 (session bus_good))) = []"
  using resetSensor_rejects_other_commands [of "0x1234" "session bus_good"]
  by (simp add: cmd_defs session_def error_defs)

subsection \<open>Status clear\<close>

text \<open>
  C4. \<open>clearSensorStatus\<close> is declared to return a boolean result, but its failure
  branch returns \<^verbatim>\<open>0xFFFF\<close>, which converts to true. On a bus where nothing acknowledges,
  the command write fails (and records \<open>ERROR_END_TRANSMISSION\<close>), yet the call
  returns true.
\<close>

theorem clearSensorStatus_failed_write_returns_true:
  "fst (writeCommand CMD_CLEAR_STATUS (session bus_nack)) = False
   \<and> fst (clearSensorStatus (session bus_nack)) = True
   \<and> error_code (snd (clearSensorStatus (session bus_nack))) = ERROR_END_TRANSMISSION"
  by (simp add: clearSensorStatus_def writeCommand_eq session_def bus_nack_def int_to_bool_def
      error_defs Let_def)

text \<open>In fact the call returns true whatever the bus does.\<close>

lemma clearSensorStatus_always_true: "fst (clearSensorStatus s) = True"
  by (simp add: clearSensorStatus_def int_to_bool_def split: prod.splits)

subsection \<open>Status read\<close>

text \<open>
  C5. Every failure path of \<open>readSensorStatus\<close> returns the sentinel \<open>0xFFFF\<close>: a
  failed command write, a read that does not deliver exactly three bytes, and a checksum
  byte that differs from \<open>crc8\<close> of the two data bytes. Otherwise (the write succeeded
  and the three bytes carry the right checksum) the result is the word assembled from the
  two data bytes, high byte first. The four cases are exhaustive, so no partly read or
  corrupt word is ever returned.
\<close>

theorem readSensorStatus_sentinel:
  "(\<not> fst (writeCommand CMD_READ_STATUS s) \<longrightarrow> fst (readSensorStatus s) = 0xFFFF)
   \<and> (length (response 3 (snd (writeCommand CMD_READ_STATUS s))) \<noteq> 3
        \<longrightarrow> fst (readSensorStatus s) = 0xFFFF)
   \<and> (\<forall>b0 b1 c. response 3 (snd (writeCommand CMD_READ_STATUS s)) = [b0, b1, c]
          \<and> c \<noteq> crc8 [b0, b1] \<longrightarrow> fst (readSensorStatus s) = 0xFFFF)
   \<and> (\<forall>b0 b1. fst (writeCommand CMD_READ_STATUS s)
          \<and> response 3 (snd (writeCommand CMD_READ_STATUS s)) = [b0, b1, crc8 [b0, b1]]
          \<longrightarrow> fst (readSensorStatus s) = be16 b0 b1
            \<and> unat (fst (readSensorStatus s)) = 256 * unat b0 + unat b1)"
  by (auto simp add: readSensorStatus_eq Let_def unat_be16 split: prod.splits)

theorem readSensorStatus_sentinel_witness:
  "fst (readSensorStatus (session bus_nack)) = 0xFFFF
   \<and> fst (readSensorStatus (session bus_short)) = 0xFFFF
   \<and> fst (readSensorStatus (session bus_corrupt)) = 0xFFFF
   \<and> fst (readSensorStatus (session bus_good)) = 0xBEEF"
proof -
  have s: "length (response 3 (snd (writeCommand CMD_READ_STATUS (session bus_short)))) \<noteq> 3"
    by (simp add: response_after_write bus_short_def answer_def)
  have c: "response 3 (snd (writeCommand CMD_READ_STATUS (session bus_corrupt)))
      = [0xBE, 0xEF, 0x93]"
    by (simp add: response_after_write bus_corrupt_def answer_def)
  have r: "response 3 (snd (writeCommand CMD_READ_STATUS (session bus_good)))
      = [0xBE, 0xEF, 0x92]"
    by (simp add: response_after_write bus_good_def answer_def frame_def)
  have v: "be16 0xBE 0xEF = 0xBEEF" by (simp add: be16_def)
  show ?thesis
    using readSensorStatus_sentinel [of "session bus_nack"]
      readSensorStatus_sentinel [of "session bus_short"]
      readSensorStatus_sentinel [of "session bus_corrupt"]
      readSensorStatus_sentinel [of "session bus_good"]
      writeCommand_on_buses [of CMD_READ_STATUS] s c r crc8_BEEF v
    by simp
qed

subsection \<open>Single-shot measurement\<close>

lemma readSensorData_failure_frame:
  "\<not> fst (readSensorData s) \<Longrightarrow>
     temperature (snd (readSensorData s)) = temperature s
     \<and> humidity (snd (readSensorData s)) = humidity s"
  by (auto simp add: readSensorData_eq Let_def split: if_splits)

lemma readSensorData_ok:
  "fst (readSensorData s) \<longleftrightarrow>
     length (response 6 s) = 6
     \<and> (useCRC s \<longrightarrow> response 6 s ! 2 = crc8 (take 2 (response 6 s))
                      \<and> response 6 s ! 5 = crc8 (take 2 (drop 3 (response 6 s))))"
  by (auto simp add: readSensorData_eq Let_def)

lemma readSensorData_trace:
  "\<exists>rest. trace (snd (readSensorData s)) =
     trace s @ RequestFrom (i2c_device_address s) 6 # rest"
  by (simp add: readSensorData_eq Let_def)

text \<open>
  C8, as amended. \<open>runSingleShot\<close> fails (returns false) for a command that is not one
  of the three single-shot commands, when the command write fails, when the read does not
  deliver exactly six bytes, and, while checksum enforcement is enabled, when either
  checksum byte is wrong. Whenever it returns false, the out-parameters \<open>fT\<close> and
  \<open>fH\<close> and the stored temperature and humidity are what they were before the call.
  So partial data is never handed out, and corrupt data is never handed out while
  enforcement is enabled.
\<close>

theorem runSingleShot_failure_leaves_values:
  "case runSingleShot c fT fH s of (ok, fT', fH', s') \<Rightarrow>
     (c \<noteq> CMD_SS_CSD_HIGH \<and> c \<noteq> CMD_SS_CSD_MEDIUM \<and> c \<noteq> CMD_SS_CSD_LOW \<longrightarrow> \<not> ok)
     \<and> (\<not> fst (writeCommand c s) \<longrightarrow> \<not> ok)
     \<and> (length (response 6 (delay (min_conversion_delay c) (snd (writeCommand c s)))) \<noteq> 6
          \<longrightarrow> \<not> ok)
     \<and> (useCRC s
          \<and> (let resp = response 6 (delay (min_conversion_delay c) (snd (writeCommand c s)))
             in resp ! 2 \<noteq> crc8 (take 2 resp) \<or> resp ! 5 \<noteq> crc8 (take 2 (drop 3 resp)))
          \<longrightarrow> \<not> ok)
     \<and> (\<not> ok \<longrightarrow> fT' = fT \<and> fH' = fH
                 \<and> temperature s' = temperature s \<and> humidity s' = humidity s)"
proof -
  let ?s2 = "delay (min_conversion_delay c) (snd (writeCommand c s))"
  have a: "\<not> fst (readSensorData ?s2) \<Longrightarrow>
      temperature (snd (readSensorData ?s2)) = temperature s
      \<and> humidity (snd (readSensorData ?s2)) = humidity s"
    using readSensorData_failure_frame [of ?s2] by simp
  have b: "fst (readSensorData ?s2) \<longleftrightarrow>
      length (response 6 ?s2) = 6
      \<and> (useCRC s \<longrightarrow> response 6 ?s2 ! 2 = crc8 (take 2 (response 6 ?s2))
                      \<and> response 6 ?s2 ! 5 = crc8 (take 2 (drop 3 (response 6 ?s2))))"
    using readSensorData_ok [of ?s2] by simp
  show ?thesis
    using a b by (auto simp add: runSingleShot_eq Let_def)
qed

theorem runSingleShot_failure_leaves_values_witness:
  "runSingleShot 0x1234 1 2 (session bus_good)
     = (False, 1, 2, (session bus_good)\<lparr>error_code := ERROR_WRONG_COMMAND\<rparr>)
   \<and> (case runSingleShot CMD_SS_CSD_HIGH 1 2 (session bus_nack) of (ok, fT', fH', s') \<Rightarrow>
        \<not> ok \<and> fT' = 1 \<and> fH' = 2 \<and> temperature s' = 20 \<and> humidity s' = 50)
   \<and> (case runSingleShot CMD_SS_CSD_HIGH 1 2 (session bus_short) of (ok, fT', fH', s') \<Rightarrow>
        \<not> ok \<and> fT' = 1 \<and> fH' = 2 \<and> temperature s' = 20 \<and> humidity s' = 50)
   \<and> (case runSingleShot CMD_SS_CSD_HIGH 1 2 (session bus_corrupt) of (ok, fT', fH', s') \<Rightarrow>
        \<not> ok \<and> fT' = 1 \<and> fH' = 2 \<and> temperature s' = 20 \<and> humidity s' = 50)"
proof -
  have a: "runSingleShot 0x1234 1 2 (session bus_good)
     = (False, 1, 2, (session bus_good)\<lparr>error_code := ERROR_WRONG_COMMAND\<rparr>)"
    by (simp add: runSingleShot_eq cmd_defs)
  have s: "length (response 6 (delay (min_conversion_delay CMD_SS_CSD_HIGH)
      (snd (writeCommand CMD_SS_CSD_HIGH (session bus_short))))) \<noteq> 6"
    by (simp add: response_after_delay bus_short_def answer_def)
  have c: "response 6 (delay (min_conversion_delay CMD_SS_CSD_HIGH)
      (snd (writeCommand CMD_SS_CSD_HIGH (session bus_corrupt))))
      = [0xBE, 0xEF, 0x93, 0x6A, 0x65, 0x75]"
    by (simp add: response_after_delay bus_corrupt_def answer_def)
  show ?thesis
    using a
      runSingleShot_failure_leaves_values
        [where c = CMD_SS_CSD_HIGH and fT = 1 and fH = 2 and s = "session bus_nack"]
      runSingleShot_failure_leaves_values
        [where c = CMD_SS_CSD_HIGH and fT = 1 and fH = 2 and s = "session bus_short"]
      runSingleShot_failure_leaves_values
        [where c = CMD_SS_CSD_HIGH and fT = 1 and fH = 2 and s = "session bus_corrupt"]
      s c crc8_BEEF
    by (simp add: writeCommand_on_buses split: prod.splits)
qed

text \<open>
  C10. Let \<open>c\<close> be a single-shot command and \<open>d\<close> its delay: 16 ms for high, 7 ms for
  medium, 5 ms for low repeatability. If the command write succeeds, the calls that
  \<open>runSingleShot\<close> makes after the write start with \<open>delay(d)\<close>, directly followed by
  the request for six bytes, and the time spent in \<open>delay\<close> is \<open>d\<close>. If the write
  fails the call returns false at once: no delay, no read. So a call that returns true,
  and any call that issues the read, has waited \<open>d\<close> ms; for high repeatability that is
  16 ms.
\<close>

theorem runSingleShot_waits_before_read:
  assumes "c = CMD_SS_CSD_HIGH \<and> d = 16 \<or> c = CMD_SS_CSD_MEDIUM \<and> d = 7
           \<or> c = CMD_SS_CSD_LOW \<and> d = 5"
  shows "case runSingleShot c fT fH s of (ok, fT', fH', s') \<Rightarrow>
     (fst (writeCommand c s) \<longrightarrow>
        (\<exists>rest. trace s' = trace (snd (writeCommand c s))
                   @ Delay d # RequestFrom (i2c_device_address s) 6 # rest)
        \<and> clock s' = clock s + d)
     \<and> (\<not> fst (writeCommand c s) \<longrightarrow>
          \<not> ok \<and> trace s' = trace (snd (writeCommand c s)) \<and> clock s' = clock s)
     \<and> (ok \<longrightarrow> clock s' = clock s + d)"
proof -
  have d: "min_conversion_delay c = d"
    using assms(1) by (auto simp add: min_conversion_delay_def cmd_defs)
  have v: "\<not> (c \<noteq> CMD_SS_CSD_HIGH \<and> c \<noteq> CMD_SS_CSD_MEDIUM \<and> c \<noteq> CMD_SS_CSD_LOW)"
    using assms(1) by auto
  let ?s2 = "delay d (snd (writeCommand c s))"
  obtain rest where r: "trace (snd (readSensorData ?s2)) =
      trace ?s2 @ RequestFrom (i2c_device_address ?s2) 6 # rest"
    using readSensorData_trace [of ?s2] by blast
  show ?thesis
    using r v by (auto simp add: runSingleShot_eq d Let_def)
qed

theorem runSingleShot_waits_before_read_witness:
  "clock (snd (snd (snd (runSingleShot CMD_SS_CSD_HIGH 0 0 (session bus_good))))) = 16
   \<and> clock (snd (snd (snd (runSingleShot CMD_SS_CSD_MEDIUM 0 0 (session bus_good))))) = 7
   \<and> clock (snd (snd (snd (runSingleShot CMD_SS_CSD_LOW 0 0 (session bus_good))))) = 5
   \<and> clock (snd (snd (snd (runSingleShot CMD_SS_CSD_HIGH 0 0 (session bus_nack))))) = 0"
  using
    runSingleShot_waits_before_read
      [where c = CMD_SS_CSD_HIGH and d = 16 and fT = 0 and fH = 0 and s = "session bus_good"]
    runSingleShot_waits_before_read
      [where c = CMD_SS_CSD_MEDIUM and d = 7 and fT = 0 and fH = 0 and s = "session bus_good"]
    runSingleShot_waits_before_read
      [where c = CMD_SS_CSD_LOW and d = 5 and fT = 0 and fH = 0 and s = "session bus_good"]
    runSingleShot_waits_before_read
      [where c = CMD_SS_CSD_HIGH and d = 16 and fT = 0 and fH = 0 and s = "session bus_nack"]
  by (simp add: writeCommand_on_buses split: prod.splits)

subsection \<open>Checksum enforcement\<close>

text \<open>
  \<open>readSensorData\<close> checks the two checksums only when \<open>useCRC\<close> is set: with
  enforcement disabled any six bytes give a result and no fault; with enforcement enabled
  a wrong checksum byte fails the call, records \<open>ERROR_CRC_CHECK\<close> and stores nothing.
\<close>

lemma readSensorData_crc_disabled:
  "length (response 6 s) = 6 \<Longrightarrow> \<not> useCRC s \<Longrightarrow>
     fst (readSensorData s) \<and> error_code (snd (readSensorData s)) = error_code s"
  by (simp add: readSensorData_eq Let_def)

lemma readSensorData_crc_enforced:
  "length (response 6 s) = 6 \<Longrightarrow> useCRC s \<Longrightarrow>
   response 6 s ! 2 \<noteq> crc8 (take 2 (response 6 s))
     \<or> response 6 s ! 5 \<noteq> crc8 (take 2 (drop 3 (response 6 s))) \<Longrightarrow>
     \<not> fst (readSensorData s)
     \<and> error_code (snd (readSensorData s)) = error_code s OR ERROR_CRC_CHECK
     \<and> temperature (snd (readSensorData s)) = temperature s
     \<and> humidity (snd (readSensorData s)) = humidity s"
  by (simp add: readSensorData_eq Let_def)

text \<open>
  C2. \<open>readSensorStatus\<close> does not look at \<open>useCRC\<close>. With enforcement disabled and
  a status response whose checksum byte is corrupted (\<open>0x93\<close> for \<open>0x92\<close>), it
  returns the sentinel and records \<open>ERROR_CRC_CHECK\<close>, whereas \<open>readSensorData\<close> in
  the same configuration on the same bus succeeds without a fault.
\<close>

theorem readSensorStatus_checks_crc_when_disabled:
  "\<not> useCRC (set_defaults DISABLE_CRC CELSIUS (session bus_corrupt))
   \<and> fst (readSensorStatus (set_defaults DISABLE_CRC CELSIUS (session bus_corrupt))) = 0xFFFF
   \<and> error_code (snd (readSensorStatus (set_defaults DISABLE_CRC CELSIUS (session bus_corrupt))))
       = ERROR_CRC_CHECK
   \<and> fst (readSensorData (set_defaults DISABLE_CRC CELSIUS (session bus_corrupt)))
   \<and> error_code (snd (readSensorData (set_defaults DISABLE_CRC CELSIUS (session bus_corrupt))))
       = NO_ERROR"
proof -
  let ?s = "set_defaults DISABLE_CRC CELSIUS (session bus_corrupt)"
  let ?t = "[BeginTransmission 0x44, Write [0xF3, 0x2D], EndTransmission]"
  have w: "writeCommand CMD_READ_STATUS ?s = (True, ?s\<lparr>trace := ?t\<rparr>)"
    by (simp add: writeCommand_eq Let_def bus_corrupt_def CMD_READ_STATUS_def)
  have r3: "response 3 (?s\<lparr>trace := ?t\<rparr>) = [0xBE, 0xEF, 0x93]"
    by (simp add: response_def bus_corrupt_def answer_def)
  have r6: "response 6 ?s = [0xBE, 0xEF, 0x93, 0x6A, 0x65, 0x75]"
    by (simp add: response_def bus_corrupt_def answer_def)
  have a: "\<not> useCRC ?s" by (simp add: DISABLE_CRC_def)
  have b: "fst (readSensorStatus ?s) = 0xFFFF
      \<and> error_code (snd (readSensorStatus ?s)) = ERROR_CRC_CHECK"
    by (simp add: readSensorStatus_eq w r3 crc8_BEEF Let_def error_defs)
  have c: "fst (readSensorData ?s) \<and> error_code (snd (readSensorData ?s)) = NO_ERROR"
    using readSensorData_crc_disabled [of ?s] a by (simp add: r6 NO_ERROR_def)
  show ?thesis using a b c by simp
qed

subsection \<open>The error accumulator\<close>

text \<open>
  No call depends on the accumulator, and every call only ORs bits into it. The lemmas
  below say so for the building blocks; \<open>exec_accumulates\<close> says it for each public call.
\<close>

lemma conversion_error_update [simp]:
  "to_temperature (s\<lparr>error_code := e\<rparr>) = to_temperature s"
  "to_humidity (s\<lparr>error_code := e\<rparr>) = to_humidity s"
  by (simp_all add: to_temperature_def to_humidity_def fun_eq_iff)

lemma response_error_update [simp]:
  "response n (s\<lparr>error_code := e\<rparr>) = response n s"
  by (simp add: response_def)

lemma writeCommand_error_code:
  "error_code (snd (writeCommand c s)) =
     error_code s OR error_code (snd (writeCommand c (s\<lparr>error_code := 0\<rparr>)))"
  by (simp add: writeCommand_eq Let_def or.assoc)

lemma writeCommand_error_indep:
  "fst (writeCommand c (s\<lparr>error_code := e\<rparr>)) = fst (writeCommand c s)"
  "trace (snd (writeCommand c (s\<lparr>error_code := e\<rparr>))) = trace (snd (writeCommand c s))"
  by (simp_all add: writeCommand_eq Let_def)

lemma writeCommand_error_update:
  "snd (writeCommand c (s\<lparr>error_code := e\<rparr>)) =
     (snd (writeCommand c s))\<lparr>error_code :=
        e OR error_code (snd (writeCommand c (s\<lparr>error_code := 0\<rparr>)))\<rparr>"
  by (simp add: writeCommand_eq Let_def or.assoc)

lemma readSensorData_error_update:
  "fst (readSensorData (s\<lparr>error_code := e\<rparr>)) = fst (readSensorData s)"
  "error_code (snd (readSensorData (s\<lparr>error_code := e\<rparr>))) =
     e OR error_code (snd (readSensorData (s\<lparr>error_code := 0\<rparr>)))"
  by (auto simp add: readSensorData_eq Let_def)

lemma delay_error_update:
  "delay d (s\<lparr>error_code := e\<rparr>) = (delay d s)\<lparr>error_code := e\<rparr>"
  by (simp add: delay_def log_event_def)

lemma runSingleShot_accumulates:
  "error_code (snd (snd (snd (runSingleShot c fT fH s)))) =
     error_code s
       OR error_code (snd (snd (snd (runSingleShot c fT fH (s\<lparr>error_code := 0\<rparr>)))))"
proof (cases "c \<noteq> CMD_SS_CSD_HIGH \<and> c \<noteq> CMD_SS_CSD_MEDIUM \<and> c \<noteq> CMD_SS_CSD_LOW")
  case True
  then show ?thesis by (simp add: runSingleShot_eq)
next
  case False
  then have valid: "c = CMD_SS_CSD_HIGH \<or> c = CMD_SS_CSD_MEDIUM \<or> c = CMD_SS_CSD_LOW"
    by auto
  let ?z = "s\<lparr>error_code := 0\<rparr>"
  define w0 where "w0 = error_code (snd (writeCommand c ?z))"
  have w: "error_code (snd (writeCommand c s)) = error_code s OR w0"
    unfolding w0_def by (rule writeCommand_error_code)
  show ?thesis
  proof (cases "fst (writeCommand c s)")
    case False
    then show ?thesis
      using w by (simp add: runSingleShot_valid [OF valid] writeCommand_error_indep w0_def)
  next
    case True
    let ?s1 = "snd (writeCommand c s)"
    let ?d = "min_conversion_delay c"
    define r0
      where "r0 = error_code (snd (readSensorData ((delay ?d ?s1)\<lparr>error_code := 0\<rparr>)))"
    have s1: "(delay ?d ?s1)\<lparr>error_code := error_code ?s1\<rparr> = delay ?d ?s1"
      by (simp add: delay_def log_event_def)
    have a: "error_code (snd (readSensorData (delay ?d ?s1))) = error_code ?s1 OR r0"
      using readSensorData_error_update(2) [where s = "delay ?d ?s1" and e = "error_code ?s1"]
      by (simp only: s1 r0_def)
    have z: "snd (writeCommand c ?z) = ?s1\<lparr>error_code := w0\<rparr>"
      using writeCommand_error_update [where c = c and s = s and e = 0] by (simp add: w0_def)
    have b: "error_code (snd (readSensorData (delay ?d (snd (writeCommand c ?z))))) = w0 OR r0"
      using readSensorData_error_update(2) [where s = "delay ?d ?s1" and e = w0]
      by (simp only: z delay_error_update r0_def)
    have l: "error_code (snd (snd (snd (runSingleShot c fT fH s)))) = error_code ?s1 OR r0"
      using True a by (simp add: runSingleShot_valid [OF valid] Let_def)
    have r: "error_code (snd (snd (snd (runSingleShot c fT fH ?z)))) = w0 OR r0"
      using True b
      by (simp add: runSingleShot_valid [OF valid] Let_def writeCommand_error_indep)
    show ?thesis
      by (simp only: l r w or.assoc)
  qed
qed

lemma exec_accumulates: "error_code (exec c s) = error_code s OR faults c s"
proof (cases c)
  case IsSensorConnected
  then show ?thesis
    by (simp add: faults_def isSensorConnected_def wire_beginTransmission_def
        wire_endTransmission_def log_event_def set_error_def Let_def NO_ERROR_def)
next
  case (ResetSensor x)
  then show ?thesis
    by (simp add: faults_def resetSensor_eq Let_def NO_ERROR_def or.assoc)
next
  case (RunSingleShot x)
  then show ?thesis
    using runSingleShot_accumulates [of x 0 0 s] by (simp add: faults_def NO_ERROR_def)
next
  case ClearSensorStatus
  then show ?thesis
    by (simp add: faults_def clearSensorStatus_def writeCommand_eq Let_def NO_ERROR_def
        or.assoc)
next
  case ReadSensorStatus
  then show ?thesis
    by (simp add: faults_def readSensorStatus_eq writeCommand_eq response_def Let_def
        NO_ERROR_def or.assoc)
qed

text \<open>
  C6. \<open>getLastError\<close> returns the accumulator and resets it to \<open>NO_ERROR\<close> in one
  step. Every public call leaves the accumulator at its old value ORed with the faults
  of that call. Hence, starting from the state \<open>d\<close> right after a drain, two calls
  \<open>c1\<close> and \<open>c2\<close> followed by a drain give the union of the faults of \<open>c1\<close> and of
  \<open>c2\<close>, and a second drain with no call in between gives zero.
\<close>

theorem getLastError_drains_union:
  "getLastError s = (error_code s, s\<lparr>error_code := NO_ERROR\<rparr>)
   \<and> error_code (exec c s) = error_code s OR faults c s
   \<and> (let d = snd (getLastError s); s2 = exec c2 (exec c1 d)
      in fst (getLastError s2) = faults c1 d OR faults c2 (exec c1 d)
         \<and> fst (getLastError (snd (getLastError s2))) = NO_ERROR)"
  by (simp add: getLastError_eq exec_accumulates Let_def) (simp add: NO_ERROR_def)

text \<open>
  An instance with two faulting calls: a reset with the invalid command \<open>0x1234\<close>, then
  a status read on a bus that delivers two bytes only.
\<close>

lemma getLastError_two_faults:
  "(let s2 = exec ReadSensorStatus (exec (ResetSensor 0x1234) (session bus_short))
    in fst (getLastError s2) = ERROR_WRONG_COMMAND OR ERROR_REQUEST_LEN
       \<and> fst (getLastError s2) = 0x105
       \<and> fst (getLastError (snd (getLastError s2))) = 0)"
  by (simp add: getLastError_eq Let_def resetSensor_eq cmd_defs readSensorStatus_eq
      writeCommand_eq response_def bus_short_def answer_def error_defs)

lemma flag_and_flag:
  "f \<in> set fault_flags \<Longrightarrow> g \<in> set fault_flags \<Longrightarrow> g AND f = (if g = f then f else 0)"
  by (auto simp add: fault_flags_def error_defs)

lemma fold_set_error:
  "error_code (fold set_error fs s) = fold (\<lambda>f a. a OR f) fs (error_code s)"
  by (induction fs arbitrary: s) (simp_all add: set_error_def)

lemma fold_or_and_flag:
  "set fs \<subseteq> set fault_flags \<Longrightarrow> f \<in> set fault_flags \<Longrightarrow>
     fold (\<lambda>f a. a OR f) fs a AND f = (a AND f) OR (if f \<in> set fs then f else 0)"
proof (induction fs arbitrary: a)
  case Nil
  then show ?case by simp
next
  case (Cons g fs)
  have "(a OR g) AND f = (a AND f) OR (g AND f)"
    by (simp add: bit.conj_disj_distrib2)
  with Cons show ?case
    by (simp add: flag_and_flag or.assoc)
qed

text \<open>
  C3. Any two distinct flags among the eight of \<open>fault_flags\<close> (write-length,
  end-of-transmission, request-length, wrong-command, CRC-check, not-connected,
  wrong-sensor-id, timeout) have bitwise AND zero. So when any combination \<open>fs\<close> of
  them has been ORed into an empty accumulator, the drained value contains a flag
  \<open>f\<close> exactly when \<open>f\<close> is one of \<open>fs\<close>.
\<close>

theorem fault_flags_independent:
  "(\<forall>f \<in> set fault_flags. \<forall>g \<in> set fault_flags. f \<noteq> g \<longrightarrow> f AND g = 0)
   \<and> (\<forall>fs f. set fs \<subseteq> set fault_flags \<and> f \<in> set fault_flags \<longrightarrow>
         (fst (getLastError (fold set_error fs (s\<lparr>error_code := NO_ERROR\<rparr>))) AND f = f
          \<longleftrightarrow> f \<in> set fs))"
proof -
  have nz: "f \<in> set fault_flags \<Longrightarrow> f \<noteq> 0" for f
    by (auto simp add: fault_flags_def error_defs)
  have a: "\<forall>f \<in> set fault_flags. \<forall>g \<in> set fault_flags. f \<noteq> g \<longrightarrow> f AND g = 0"
    by (simp add: flag_and_flag)
  have b: "fst (getLastError (fold set_error fs (s\<lparr>error_code := NO_ERROR\<rparr>))) AND f = f
      \<longleftrightarrow> f \<in> set fs" if "set fs \<subseteq> set fault_flags" "f \<in> set fault_flags" for fs f
    using that nz [of f]
    by (simp add: getLastError_eq fold_set_error fold_or_and_flag NO_ERROR_def)
  show ?thesis using a b by blast
qed

theorem fault_flags_independent_witness:
  "ERROR_WRONG_COMMAND AND ERROR_CRC_CHECK = 0
   \<and> fst (getLastError (fold set_error [ERROR_WRONG_COMMAND, ERROR_WRITE_LEN] (session bus_good)))
        AND ERROR_WRONG_COMMAND = ERROR_WRONG_COMMAND
   \<and> fst (getLastError (fold set_error [ERROR_WRONG_COMMAND, ERROR_WRITE_LEN] (session bus_good)))
        AND ERROR_CRC_CHECK \<noteq> ERROR_CRC_CHECK"
proof -
  have m: "ERROR_WRONG_COMMAND \<in> set fault_flags" "ERROR_CRC_CHECK \<in> set fault_flags"
    "ERROR_WRONG_COMMAND \<noteq> ERROR_CRC_CHECK"
    "set [ERROR_WRONG_COMMAND, ERROR_WRITE_LEN] \<subseteq> set fault_flags"
    "ERROR_CRC_CHECK \<notin> set [ERROR_WRONG_COMMAND, ERROR_WRITE_LEN]"
    by (simp_all add: fault_flags_def error_defs)
  have e: "(session bus_good)\<lparr>error_code := NO_ERROR\<rparr> = session bus_good"
    by (simp add: session_def)
  from fault_flags_independent [of "session bus_good"]
  have a: "\<forall>f \<in> set fault_flags. \<forall>g \<in> set fault_flags. f \<noteq> g \<longrightarrow> f AND g = 0"
    and b: "\<forall>fs f. set fs \<subseteq> set fault_flags \<and> f \<in> set fault_flags \<longrightarrow>
         (fst (getLastError (fold set_error fs (session bus_good))) AND f = f \<longleftrightarrow> f \<in> set fs)"
    by (simp_all only: e) blast+
  show ?thesis
    using a m b [rule_format, of "[ERROR_WRONG_COMMAND, ERROR_WRITE_LEN]" ERROR_WRONG_COMMAND]
      b [rule_format, of "[ERROR_WRONG_COMMAND, ERROR_WRITE_LEN]" ERROR_CRC_CHECK]
    by auto
qed

text \<open>
  \<open>ERROR_WRONG_COMMAND\<close> is \<open>0x101\<close>, two bits. Its low bit is the ninth mask of the
  header, \<open>ERROR_TRANSMISSION_LEN\<close>, which is not in the list above and which the driver
  never raises.
\<close>

lemma wrong_command_overlaps_transmission_len:
  "ERROR_WRONG_COMMAND AND ERROR_TRANSMISSION_LEN = ERROR_TRANSMISSION_LEN"
  by (simp add: error_defs)

subsection \<open>Unit conversion\<close>

text \<open>
  Rounding to \<open>p \<ge> 24\<close> binary digits changes a value by at most the fraction \<open>2\<^sup>-\<^sup>2\<^sup>4\<close>
  of its magnitude.
\<close>

lemma round_even_error: "\<bar>real_of_int (round_even y) - y\<bar> \<le> 1 / 2"
proof -
  have "of_int \<lfloor>y\<rfloor> \<le> y" "y < of_int \<lfloor>y\<rfloor> + 1"
    by linarith+
  then show ?thesis
    by (auto simp add: round_even_def Let_def)
qed

lemma round_to_error:
  assumes "24 \<le> p"
  shows "\<bar>round_to p x - x\<bar> \<le> \<bar>x\<bar> / 2 ^ 24"
proof (cases "x = 0")
  case True
  then show ?thesis by (simp add: round_to_def)
next
  case False
  define e where "e = \<lfloor>log 2 \<bar>x\<bar>\<rfloor>"
  define S :: real where "S = 2 powr of_int (e - (int p - 1))"
  have S: "0 < S" by (simp add: S_def)
  have r: "round_to p x = of_int (round_even (x / S)) * S"
    using False by (simp add: round_to_def e_def S_def Let_def)
  have "\<bar>round_to p x - x\<bar> = \<bar>of_int (round_even (x / S)) - x / S\<bar> * S"
  proof -
    have "round_to p x - x = (of_int (round_even (x / S)) - x / S) * S"
      using S by (simp add: r algebra_simps)
    then show ?thesis using S by (simp add: abs_mult)
  qed
  also have "\<dots> \<le> (1 / 2) * S"
    using round_even_error [of "x / S"] S by (intro mult_right_mono) simp_all
  also have "(1 / 2) * S = 2 powr of_int e * 2 powr (- real p)"
  proof -
    have "of_int (e - (int p - 1)) = of_int e + (- real p) + (1::real)" by simp
    then have "S = 2 powr of_int e * 2 powr (- real p) * 2"
      by (simp only: S_def powr_add) simp
    then show ?thesis by simp
  qed
  also have "\<dots> \<le> \<bar>x\<bar> * 2 powr (- real p)"
  proof -
    have "of_int e \<le> log 2 \<bar>x\<bar>" by (simp add: e_def)
    then have "2 powr of_int e \<le> 2 powr log 2 \<bar>x\<bar>"
      by (intro powr_mono) simp_all
    also have "\<dots> = \<bar>x\<bar>" using False by simp
    finally show ?thesis by (intro mult_right_mono) simp_all
  qed
  also have "\<dots> \<le> \<bar>x\<bar> * 2 powr (- real (24::nat))"
    using assms by (intro mult_left_mono powr_mono) simp_all
  also have "\<dots> = \<bar>x\<bar> / 2 ^ 24"
    by (simp add: powr_minus_divide)
  finally show ?thesis .
qed

lemma round_to_near:
  assumes "24 \<le> p" and "\<bar>x - x0\<bar> \<le> e" and "\<bar>x0\<bar> \<le> B"
  shows "\<bar>round_to p x - x0\<bar> \<le> e + (B + e) / 2 ^ 24"
proof -
  have "\<bar>x\<bar> \<le> B + e" using assms(2,3) by linarith
  then have "\<bar>x\<bar> / 2 ^ 24 \<le> (B + e) / 2 ^ 24"
    by (intro divide_right_mono) simp_all
  with round_to_error [OF assms(1), of x] assms(2) show ?thesis
    by linarith
qed


text \<open>
  The error of the scaling \<^verbatim>\<open>data * (A / 65535)\<close>, accumulated over its five roundings,
  and of the whole conversion with the offset subtracted and the result stored in a
  \<^verbatim>\<open>float\<close>.
\<close>

lemma product_near:
  fixes x y x0 y0 :: real
  assumes "\<bar>x - x0\<bar> \<le> ex" and "\<bar>y - y0\<bar> \<le> ey" and "\<bar>x\<bar> \<le> X" and "\<bar>y0\<bar> \<le> Y"
  shows "\<bar>x * y - x0 * y0\<bar> \<le> X * ey + Y * ex"
proof -
  have "x * y - x0 * y0 = x * (y - y0) + y0 * (x - x0)"
    by (simp add: algebra_simps)
  then have "\<bar>x * y - x0 * y0\<bar> \<le> \<bar>x\<bar> * \<bar>y - y0\<bar> + \<bar>y0\<bar> * \<bar>x - x0\<bar>"
    by (simp only: abs_mult [symmetric])
  also have "\<dots> \<le> X * ey + Y * ex"
    using assms by (intro add_mono mult_mono) simp_all
  finally show ?thesis .
qed

lemma scale_error:
  fixes d A :: real
  assumes p: "24 \<le> p" and d: "0 \<le> d" "d \<le> 65535" and A: "0 < A" "A \<le> 315"
  shows "\<bar>round_to p (round_to p d * round_to p (round_to p A / round_to p 65535))
          - d * A / 65535\<bar> \<le> 2 / 10000"
proof -
  define c0 where "c0 = A / 65535"
  have c0: "0 < c0" "c0 \<le> 5 / 1000" "c0 * 65535 = A"
    using A by (simp_all add: c0_def)
  define a1 where "a1 = round_to p A"
  define a2 where "a2 = round_to p 65535"
  have a1: "\<bar>a1 - A\<bar> \<le> 2 / 100000"
    using round_to_near [OF p, of A A 0 315] A by (simp add: a1_def)
  have a2: "\<bar>a2 - 65535\<bar> \<le> 4 / 1000"
    using round_to_near [OF p, of 65535 65535 0 65535] by (simp add: a2_def)
  have a2': "65534 \<le> a2" using a2 by linarith
  have q: "\<bar>a1 / a2 - c0\<bar> \<le> 1 / 1000000000"
  proof -
    define z where "z = c0 * (a2 - 65535)"
    have "c0 * \<bar>a2 - 65535\<bar> \<le> (5 / 1000) * (4 / 1000)"
      using c0 a2 by (intro mult_mono) simp_all
    then have z: "\<bar>z\<bar> \<le> 2 / 100000"
      using c0(1) by (simp add: z_def abs_mult)
    have "a1 - c0 * a2 = (a1 - A) - z"
      using c0(3) by (simp add: z_def algebra_simps)
    then have n: "\<bar>a1 - c0 * a2\<bar> \<le> 4 / 100000"
      using a1 z by linarith
    have "a1 / a2 - c0 = (a1 - c0 * a2) / a2"
      using a2' by (simp add: field_simps)
    then have "\<bar>a1 / a2 - c0\<bar> = \<bar>a1 - c0 * a2\<bar> / a2"
      using a2' by simp
    also have "\<dots> \<le> (4 / 100000) / 65534"
      using n a2' by (intro frac_le) simp_all
    also have "\<dots> \<le> 1 / 1000000000" by simp
    finally show ?thesis .
  qed
  define c where "c = round_to p (a1 / a2)"
  have c: "\<bar>c - c0\<bar> \<le> 2 / 1000000000"
    using round_to_near [OF p q, of "5 / 1000"] c0 by (simp add: c_def)
  define d1 where "d1 = round_to p d"
  have d1: "\<bar>d1 - d\<bar> \<le> 4 / 1000"
    using round_to_near [OF p, of d d 0 65535] d by (simp add: d1_def)
  have d1': "\<bar>d1\<bar> \<le> 65536" using d1 d by linarith
  have "\<bar>d1 * c - d * c0\<bar> \<le> 65536 * (2 / 1000000000) + (5 / 1000) * (4 / 1000)"
    using c0 by (intro product_near [OF d1 c d1']) simp
  then have m: "\<bar>d1 * c - d * c0\<bar> \<le> 16 / 100000" by simp
  have "d * c0 \<le> 65535 * c0"
    using d c0(1) by (intro mult_right_mono) simp_all
  also have "\<dots> = A" using c0(3) by (simp add: mult.commute)
  finally have "d * c0 \<le> 315" using A by simp
  moreover have "0 \<le> d * c0" using d c0(1) by simp
  ultimately have b: "\<bar>d * c0\<bar> \<le> 315" by simp
  have "\<bar>round_to p (d1 * c) - d * c0\<bar> \<le> 2 / 10000"
    using round_to_near [OF p m b] by simp
  then show ?thesis
    by (simp add: d1_def c_def a1_def a2_def c0_def)
qed


lemma unat16_bounds: "0 \<le> real (unat data)" "real (unat data) \<le> 65535" for data :: uint16_t
proof -
  have "unat data < 65536"
    using unsigned_less [of data, where 'a = nat] by simp
  then have "unat data \<le> 65535" by simp
  then have "real (unat data) \<le> real 65535" by (simp only: of_nat_le_iff)
  then show "real (unat data) \<le> 65535" by (simp del: of_nat_unat)
  show "0 \<le> real (unat data)" by (rule of_nat_0_le_iff)
qed

lemma to_humidity_error:
  assumes "24 \<le> double_digits s"
  shows "\<bar>to_humidity s data - real (unat data) * 100 / 65535\<bar> \<le> 1 / 1000"
proof -
  let ?p = "double_digits s"
  let ?d = "real (unat data)"
  let ?m = "round_to ?p (round_to ?p ?d * round_to ?p (round_to ?p 100 / round_to ?p 65535))"
  have m: "\<bar>?m - ?d * 100 / 65535\<bar> \<le> 2 / 10000"
    by (rule scale_error [OF assms unat16_bounds]) simp_all
  have "?d * 100 \<le> 65535 * 100"
    using unat16_bounds [of data] by (intro mult_right_mono) simp_all
  then have b: "\<bar>?d * 100 / 65535\<bar> \<le> 100"
    using unat16_bounds [of data] by simp
  have "\<bar>round_to 24 ?m - ?d * 100 / 65535\<bar> \<le> 1 / 1000"
    using round_to_near [OF order_refl m b] by simp
  then show ?thesis
    by (simp add: to_humidity_def to_double_def to_float_def Let_def)
qed

lemma offset_error:
  fixes d A B :: real
  assumes p: "24 \<le> p" and d: "0 \<le> d" "d \<le> 65535" and A: "0 < A" "A \<le> 315"
    and B: "0 \<le> B" "B \<le> 49"
  shows "\<bar>round_to 24 (round_to p
            (round_to p (round_to p d * round_to p (round_to p A / round_to p 65535))
             - round_to p B))
          - (d * A / 65535 - B)\<bar> \<le> 1 / 1000"
proof -
  define m where
    "m = round_to p (round_to p d * round_to p (round_to p A / round_to p 65535))"
  define x0 where "x0 = d * A / 65535"
  have m: "\<bar>m - x0\<bar> \<le> 2 / 10000"
    unfolding m_def x0_def by (rule scale_error [OF p d A])
  have "d * A \<le> 65535 * A"
    using d A by (intro mult_right_mono) simp_all
  also have "\<dots> \<le> 65535 * 315"
    using A by simp
  finally have x0: "0 \<le> x0" "x0 \<le> 315"
    using d A by (simp_all add: x0_def)
  define k where "k = round_to p B"
  have k: "\<bar>k - B\<bar> \<le> 3 / 1000000"
    using round_to_near [OF p, of B B 0 49] B by (simp add: k_def)
  have e1: "\<bar>(m - k) - (x0 - B)\<bar> \<le> 203 / 1000000"
    using m k by linarith
  have b: "\<bar>x0 - B\<bar> \<le> 315"
    using x0 B by linarith
  have t: "\<bar>round_to p (m - k) - (x0 - B)\<bar> \<le> 3 / 10000"
    using round_to_near [OF p e1 b] by simp
  have "\<bar>round_to 24 (round_to p (m - k)) - (x0 - B)\<bar> \<le> 1 / 1000"
    using round_to_near [OF order_refl t b] by simp
  then show ?thesis
    by (simp add: m_def k_def x0_def)
qed

lemma to_temperature_error:
  assumes "24 \<le> double_digits s"
  shows "\<bar>to_temperature s data
          - (if tUnit s then real (unat data) * 175 / 65535 - 45
             else real (unat data) * 315 / 65535 - 49)\<bar> \<le> 1 / 1000"
  using offset_error [OF assms unat16_bounds, of 175 45 data]
    offset_error [OF assms unat16_bounds, of 315 49 data]
  by (simp add: to_temperature_def to_double_def to_float_def Let_def)

text \<open>
  C9. After a read that succeeded (six bytes, checksums right if enforced), with the raw
  codes \<open>Tc\<close> = bytes 0 and 1 and \<open>Hc\<close> = bytes 3 and 4 of the response, high byte first:
  the stored humidity is within \<open>10\<^sup>-\<^sup>3\<close> of \<open>Hc * 100 / 65535\<close>; the stored
  temperature is within \<open>10\<^sup>-\<^sup>3\<close> of \<open>Tc * 175 / 65535 - 45\<close> when the configured unit
  is Celsius and of \<open>Tc * 315 / 65535 - 49\<close> when it is Fahrenheit. Both stored values
  are the rounded formulas themselves (\<open>to_humidity\<close>, \<open>to_temperature\<close>): nothing
  clamps them. A \<^verbatim>\<open>double\<close> is assumed to have at least the 24 digits of a \<^verbatim>\<open>float\<close>.
\<close>

theorem readSensorData_conversion:
  assumes "24 \<le> double_digits s" and "fst (readSensorData s)"
  shows "humidity (snd (readSensorData s))
           = to_humidity s (be16 (response 6 s ! 3) (response 6 s ! 4))
    \<and> temperature (snd (readSensorData s))
           = to_temperature s (be16 (response 6 s ! 0) (response 6 s ! 1))
    \<and> \<bar>humidity (snd (readSensorData s))
          - real (unat (be16 (response 6 s ! 3) (response 6 s ! 4))) * 100 / 65535\<bar> \<le> 1 / 1000
    \<and> (tUnit s = CELSIUS \<longrightarrow>
          \<bar>temperature (snd (readSensorData s))
            - (real (unat (be16 (response 6 s ! 0) (response 6 s ! 1))) * 175 / 65535 - 45)\<bar>
          \<le> 1 / 1000)
    \<and> (tUnit s = FARENHEIT \<longrightarrow>
          \<bar>temperature (snd (readSensorData s))
            - (real (unat (be16 (response 6 s ! 0) (response 6 s ! 1))) * 315 / 65535 - 49)\<bar>
          \<le> 1 / 1000)"
proof -
  have h: "humidity (snd (readSensorData s))
      = to_humidity s (be16 (response 6 s ! 3) (response 6 s ! 4))"
    and t: "temperature (snd (readSensorData s))
      = to_temperature s (be16 (response 6 s ! 0) (response 6 s ! 1))"
    using assms(2) by (auto simp add: readSensorData_eq Let_def split: if_splits)
  have H: "\<bar>humidity (snd (readSensorData s))
      - real (unat (be16 (response 6 s ! 3) (response 6 s ! 4))) * 100 / 65535\<bar> \<le> 1 / 1000"
    using to_humidity_error [OF assms(1), of "be16 (response 6 s ! 3) (response 6 s ! 4)"]
    by (simp only: h)
  note T = to_temperature_error [OF assms(1), of "be16 (response 6 s ! 0) (response 6 s ! 1)"]
  have C: "\<bar>temperature (snd (readSensorData s))
      - (real (unat (be16 (response 6 s ! 0) (response 6 s ! 1))) * 175 / 65535 - 45)\<bar>
      \<le> 1 / 1000" if "tUnit s = CELSIUS"
  proof -
    from that have "tUnit s" by (simp add: CELSIUS_def)
    with T show ?thesis by (simp only: t if_True)
  qed
  have F: "\<bar>temperature (snd (readSensorData s))
      - (real (unat (be16 (response 6 s ! 0) (response 6 s ! 1))) * 315 / 65535 - 49)\<bar>
      \<le> 1 / 1000" if "tUnit s = FARENHEIT"
  proof -
    from that have "\<not> tUnit s" by (simp add: FARENHEIT_def)
    with T show ?thesis by (simp only: t if_False)
  qed
  from h t H C F show ?thesis by blast
qed

lemma crc8_6A65: "crc8 [0x6A, 0x65] = 0x74"
  by code_simp

lemma response_good:
  "response 6 (session bus_good) = frame"
  "response 6 (set_defaults u t (session bus_good)) = frame"
  by (simp_all add: response_def bus_good_def answer_def frame_def)

lemma readSensorData_good:
  "fst (readSensorData (session bus_good))"
  "fst (readSensorData (set_defaults ENABLE_CRC FARENHEIT (session bus_good)))"
  by (simp_all add: readSensorData_ok response_good)
     (simp_all add: frame_def crc8_BEEF crc8_6A65)

theorem readSensorData_conversion_witness:
  "\<bar>humidity (snd (readSensorData (session bus_good))) - 0x6A65 * 100 / 65535\<bar> \<le> 1 / 1000
   \<and> \<bar>temperature (snd (readSensorData (session bus_good)))
        - (0xBEEF * 175 / 65535 - 45)\<bar> \<le> 1 / 1000
   \<and> \<bar>temperature (snd (readSensorData (set_defaults ENABLE_CRC FARENHEIT (session bus_good))))
        - (0xBEEF * 315 / 65535 - 49)\<bar> \<le> 1 / 1000"
proof -
  have d: "24 \<le> double_digits (session bus_good)"
    "24 \<le> double_digits (set_defaults ENABLE_CRC FARENHEIT (session bus_good))"
    by (simp_all add: session_def set_defaults_def)
  have v: "real (unat (be16 0xBE 0xEF)) = 0xBEEF" "real (unat (be16 0x6A 0x65)) = 0x6A65"
    by (simp_all add: unat_be16)
  note c = readSensorData_conversion [OF d(1) readSensorData_good(1)]
  note f = readSensorData_conversion [OF d(2) readSensorData_good(2)]
  have "\<bar>humidity (snd (readSensorData (session bus_good))) - 0x6A65 * 100 / 65535\<bar>
      \<le> 1 / 1000"
    using c [THEN conjunct2, THEN conjunct2, THEN conjunct1] v
    by (simp add: response_good frame_def)
  moreover have "\<bar>temperature (snd (readSensorData (session bus_good)))
      - (0xBEEF * 175 / 65535 - 45)\<bar> \<le> 1 / 1000"
    using c [THEN conjunct2, THEN conjunct2, THEN conjunct2, THEN conjunct1] v
    by (simp add: response_good frame_def CELSIUS_def)
  moreover have
    "\<bar>temperature (snd (readSensorData (set_defaults ENABLE_CRC FARENHEIT (session bus_good))))
      - (0xBEEF * 315 / 65535 - 49)\<bar> \<le> 1 / 1000"
    using f [THEN conjunct2, THEN conjunct2, THEN conjunct2, THEN conjunct2] v
    by (simp add: response_good frame_def FARENHEIT_def)
  ultimately show ?thesis by simp
qed

text \<open>The specification's example, raw code \<open>0x6A65\<close>, for both conversions.\<close>

lemma conversion_example:
  assumes "24 \<le> double_digits s" and "tUnit s = CELSIUS"
  shows "\<bar>to_temperature s 0x6A65 - (0x6A65 * 175 / 65535 - 45)\<bar> \<le> 1 / 1000"
    and "\<bar>to_humidity s 0x6A65 - 0x6A65 * 100 / 65535\<bar> \<le> 1 / 1000"
  using to_temperature_error [OF assms(1), of "0x6A65"] to_humidity_error [OF assms(1), of "0x6A65"]
    assms(2)
  by (simp_all add: CELSIUS_def)

text \<open>On success \<open>runSingleShot\<close> hands the two stored values to its caller.\<close>

lemma runSingleShot_returns_stored:
  "fst (runSingleShot c fT fH s) \<Longrightarrow>
     (case runSingleShot c fT fH s of (ok, fT', fH', s') \<Rightarrow>
        fT' = temperature s' \<and> fH' = humidity s')"
  by (auto simp add: runSingleShot_eq Let_def split: if_splits)

subsection \<open>A measurement with checksum enforcement disabled\<close>

lemma session_no_crc_fields:
  "\<not> useCRC session_no_crc" "tUnit session_no_crc" "i2c session_no_crc = bus_corrupt"
  "trace session_no_crc = []" "i2c_device_address session_no_crc = 0x44"
  "double_digits session_no_crc = 24" "temperature session_no_crc = 20"
  "humidity session_no_crc = 50"
  by (simp_all add: session_no_crc_def set_defaults_def session_def DISABLE_CRC_def CELSIUS_def)

text \<open>
  C8, as first stated, lists a checksum mismatch among the failures without condition.
  With enforcement disabled that fails: on the response \<open>BE EF 93 6A 65 75\<close>, whose
  first checksum byte is wrong (\<open>0x93\<close> for \<open>0x92\<close>), the high-repeatability
  measurement returns true, and the out-parameters (1 and 2 before the call) and the
  stored temperature and humidity (20 and 50 before) are overwritten with the values
  converted from the unchecked bytes.
\<close>

theorem runSingleShot_surfaces_mismatch_when_disabled:
  "response 6 (delay 16 (snd (writeCommand CMD_SS_CSD_HIGH session_no_crc))) ! 2
     \<noteq> crc8 (take 2 (response 6 (delay 16 (snd (writeCommand CMD_SS_CSD_HIGH session_no_crc)))))
   \<and> fst (runSingleShot CMD_SS_CSD_HIGH 1 2 session_no_crc)
   \<and> fst (snd (runSingleShot CMD_SS_CSD_HIGH 1 2 session_no_crc)) \<noteq> 1
   \<and> fst (snd (snd (runSingleShot CMD_SS_CSD_HIGH 1 2 session_no_crc))) \<noteq> 2
   \<and> temperature (snd (snd (snd (runSingleShot CMD_SS_CSD_HIGH 1 2 session_no_crc))))
        \<noteq> temperature session_no_crc
   \<and> humidity (snd (snd (snd (runSingleShot CMD_SS_CSD_HIGH 1 2 session_no_crc))))
        \<noteq> humidity session_no_crc"
proof -
  let ?s2 = "delay 16 (snd (writeCommand CMD_SS_CSD_HIGH session_no_crc))"
  have w: "fst (writeCommand CMD_SS_CSD_HIGH session_no_crc)"
    by (simp add: writeCommand_eq Let_def session_no_crc_fields bus_corrupt_def)
  have r: "response 6 ?s2 = [0xBE, 0xEF, 0x93, 0x6A, 0x65, 0x75]"
    by (simp add: response_def writeCommand_trace session_no_crc_fields bus_corrupt_def
        answer_def)
  have m: "response 6 ?s2 ! 2 \<noteq> crc8 (take 2 (response 6 ?s2))"
    by (simp add: r crc8_BEEF)
  have f: "\<not> useCRC ?s2" "tUnit ?s2" "24 \<le> double_digits ?s2"
    by (simp_all add: session_no_crc_fields)
  have ok: "fst (readSensorData ?s2)"
    using f(1) by (simp add: readSensorData_ok r)
  have st: "temperature (snd (readSensorData ?s2)) = to_temperature ?s2 (be16 0xBE 0xEF)"
    "humidity (snd (readSensorData ?s2)) = to_humidity ?s2 (be16 0x6A 0x65)"
    using f(1) by (simp_all add: readSensorData_eq Let_def r)
  have v: "real (unat (be16 0xBE 0xEF)) = 0xBEEF" "real (unat (be16 0x6A 0x65)) = 0x6A65"
    by (simp_all add: unat_be16)
  have t: "\<bar>to_temperature ?s2 (be16 0xBE 0xEF) - (0xBEEF * 175 / 65535 - 45)\<bar> \<le> 1 / 1000"
    using to_temperature_error [OF f(3), of "be16 0xBE 0xEF"] f(2) v(1)
    by (simp only: if_True)
  have h: "\<bar>to_humidity ?s2 (be16 0x6A 0x65) - 0x6A65 * 100 / 65535\<bar> \<le> 1 / 1000"
    using to_humidity_error [OF f(3), of "be16 0x6A 0x65"] v(2) by (simp only:)
  have T: "80 < to_temperature ?s2 (be16 0xBE 0xEF)"
    using t by linarith
  have H: "40 < to_humidity ?s2 (be16 0x6A 0x65)" "to_humidity ?s2 (be16 0x6A 0x65) < 45"
    using h by linarith+
  have run: "runSingleShot CMD_SS_CSD_HIGH 1 2 session_no_crc =
      (True, temperature (snd (readSensorData ?s2)), humidity (snd (readSensorData ?s2)),
       snd (readSensorData ?s2))"
    using w ok
    by (simp add: runSingleShot_valid Let_def min_conversion_delay_def)
  show ?thesis
    using m T H by (simp add: run st session_no_crc_fields)
qed

end
